theory Spec2Isabelle
  imports Main "HOL-Library.Sublist" "HOL-Library.AList"
begin

section \<open>JavaScript strings\<close>

text \<open>
  A JavaScript string is a sequence of UTF-16 code units; it is modelled as a
  \<^typ>\<open>string\<close>. The only characters the path code inspects are the slash and (inside
  \<open>String.prototype.replace\<close>) the dollar sign, each a single code unit.
\<close>

abbreviation slash :: char where
  "slash \<equiv> CHR ''/''"

definition isSlash :: "char \<Rightarrow> bool" where
  "isSlash c = (c = slash)"

text \<open>\<open>s.startsWith(pre)\<close>.\<close>

definition startsWith :: "string \<Rightarrow> string \<Rightarrow> bool" where
  "startsWith s pre = prefix pre s"

text \<open>
  \<open>p.replace(/^\/+|\/+$/g, "")\<close>: the first alternative matches the whole run of
  slashes at the start of the string, the second one the whole run of slashes that
  reaches the end of the string; both matches are deleted.
\<close>

definition trimSlashes :: "string \<Rightarrow> string" where
  "trimSlashes p = rev (dropWhile isSlash (rev (dropWhile isSlash p)))"

section \<open>Path utilities of the client (\<open>public/app.js\<close>)\<close>

text \<open>
  \<^verbatim>\<open>
  normalizePath(p) {
    if (p === "/") return p;
    if (!p) return "/";
    let norm = p.replace(/^\/+|\/+$/g, "");
    if (norm === "") return "/";
    return norm.startsWith("/") ? norm : "/" + norm;
  }
  \<close>
\<close>

definition normalizePath :: "string \<Rightarrow> string" where
  "normalizePath p =
     (if p = ''/'' then p
      else if p = [] then ''/''
      else (let norm = trimSlashes p in
            if norm = [] then ''/''
            else if startsWith norm ''/'' then norm else ''/'' @ norm))"

text \<open>
  \<open>s.split("/")\<close>: the pieces between the slashes, empty pieces included; the
  empty string splits into one empty piece.
\<close>

fun splitSlash :: "string \<Rightarrow> string list" where
  "splitSlash [] = [[]]"
| "splitSlash (c # cs) =
     (if c = slash then [] # splitSlash cs
      else (case splitSlash cs of
              [] \<Rightarrow> [[c]]
            | seg # segs \<Rightarrow> (c # seg) # segs))"

text \<open>\<open>parts.join("/")\<close>.\<close>

fun joinSlash :: "string list \<Rightarrow> string" where
  "joinSlash [] = []"
| "joinSlash [seg] = seg"
| "joinSlash (seg # segs) = seg @ ''/'' @ joinSlash segs"

text \<open>\<open>s.split("/").filter(Boolean)\<close>: the non-empty pieces.\<close>

definition segments :: "string \<Rightarrow> string list" where
  "segments s = filter (\<lambda>seg. seg \<noteq> []) (splitSlash s)"

section \<open>The canonical form of the specification\<close>

text \<open>
  The specification's canonical form of a path, in its own words: the path begins
  with a slash, the root is exactly \<open>/\<close>, there is no trailing slash except for the
  root, and there is no empty segment. Every piece after the leading slash has to be
  non-empty, which excludes both a trailing slash and a doubled slash.
\<close>

definition canonical_spec :: "string \<Rightarrow> bool" where
  "canonical_spec p =
     (startsWith p ''/'' \<and> (p = ''/'' \<or> [] \<notin> set (splitSlash (tl p))))"

text \<open>Two adjacent slashes somewhere in the string.\<close>

fun doubleSlash :: "string \<Rightarrow> bool" where
  "doubleSlash (a # b # cs) = ((a = slash \<and> b = slash) \<or> doubleSlash (b # cs))"
| "doubleSlash _ = False"


text \<open>
  \<^verbatim>\<open>
  getParentPath(path) {
    const norm = this.normalizePath(path);
    if (norm === "/") return null;
    const parts = norm.split("/").filter(Boolean);
    parts.pop();
    return parts.length ? "/" + parts.join("/") : "/";
  }
  \<close>
\<close>

definition getParentPath :: "string \<Rightarrow> string option" where
  "getParentPath path =
     (let norm = normalizePath path in
      if norm = ''/'' then None
      else (let parts = butlast (segments norm) in
            Some (if parts \<noteq> [] then ''/'' @ joinSlash parts else ''/'')))"

text \<open>
  \<^verbatim>\<open>
  getNameFromPath(path) {
    const norm = this.normalizePath(path);
    const parts = norm.split("/").filter(Boolean);
    return parts.pop() || "";
  }
  \<close>
\<close>

definition getNameFromPath :: "string \<Rightarrow> string" where
  "getNameFromPath path =
     (let parts = segments (normalizePath path) in
      if parts = [] then [] else last parts)"

text \<open>
  The specification's \<open>isDescendant(ancestor, candidate)\<close>, in its own words: true
  iff the candidate equals the ancestor or starts with the ancestor followed by a
  slash; the root ancestor matches everything. The client has no function of this
  name; it writes the test out at each use.
\<close>

definition isDescendant :: "string \<Rightarrow> string \<Rightarrow> bool" where
  "isDescendant ancestor candidate =
     (ancestor = ''/'' \<or> candidate = ancestor \<or> startsWith candidate (ancestor @ ''/''))"

section \<open>JavaScript \<open>Map\<close> and \<open>Set\<close>\<close>

text \<open>
  A \<open>Map\<close> keeps its entries in insertion order with one entry per key: an
  association list. \<open>set\<close> on a key that is present replaces the value where the
  entry stands, on a new key it appends the entry; \<open>delete\<close> removes the entry.
\<close>

type_synonym ('k, 'v) jsmap = "('k \<times> 'v) list"

definition mapSet :: "('k, 'v) jsmap \<Rightarrow> 'k \<Rightarrow> 'v \<Rightarrow> ('k, 'v) jsmap" where
  "mapSet m k v = AList.update k v m"

definition mapDelete :: "('k, 'v) jsmap \<Rightarrow> 'k \<Rightarrow> ('k, 'v) jsmap" where
  "mapDelete m k = AList.delete k m"

definition mapGet :: "('k, 'v) jsmap \<Rightarrow> 'k \<Rightarrow> 'v option" where
  "mapGet m k = map_of m k"

definition mapHas :: "('k, 'v) jsmap \<Rightarrow> 'k \<Rightarrow> bool" where
  "mapHas m k = (k \<in> set (map fst m))"

definition mapKeys :: "('k, 'v) jsmap \<Rightarrow> 'k list" where
  "mapKeys m = map fst m"

text \<open>A \<open>Set\<close> keeps its elements in insertion order, each once.\<close>

definition setAdd :: "'a list \<Rightarrow> 'a \<Rightarrow> 'a list" where
  "setAdd xs x = (if x \<in> set xs then xs else xs @ [x])"

definition setOfArray :: "'a list \<Rightarrow> 'a list" where
  "setOfArray xs = fold (\<lambda>x acc. setAdd acc x) xs []"

section \<open>Tree nodes and the folder cache\<close>

datatype itemType = File | Folder

text \<open>
  A child descriptor as the server's \<open>buildTree\<close> produces it and as the cache holds
  it: \<open>{name, path, type, hasChildren}\<close>, where \<open>hasChildren\<close> is undefined for a
  file. Children of children are never part of a descriptor.
\<close>

record treeNode =
  t_name :: string
  t_path :: string
  t_type :: itemType
  t_hasChildren :: "bool option"

type_synonym folderCache = "(string, treeNode list) jsmap"

text \<open>
  \<^verbatim>\<open>
  invalidateLoadedFolders(path) {
    const norm = this.normalizePath(path);
    if (norm === "/") {
      this.folderCache.clear();
      return;
    }
    const prefix = norm + "/";
    for (const key of this.folderCache.keys()) {
      if (key === norm || key.startsWith(prefix)) {
        this.folderCache.delete(key);
      }
    }
  }
  \<close>
  Deleting the entry under visit does not disturb the iteration of a \<open>Map\<close>, so the
  loop visits every key the cache had.
\<close>

definition invalidateLoadedFolders :: "string \<Rightarrow> folderCache \<Rightarrow> folderCache" where
  "invalidateLoadedFolders path cache =
     (let norm = normalizePath path in
      if norm = ''/'' then []
      else (let pre = norm @ ''/'' in
            fold (\<lambda>key c. if key = norm \<or> startsWith key pre then mapDelete c key else c)
              (mapKeys cache) cache))"

section \<open>\<open>String.prototype.replace\<close> with a string pattern\<close>

text \<open>
  \<open>s.replace(pattern, replacement)\<close> with two strings replaces the first occurrence
  of the pattern only, and it expands the dollar patterns of the replacement
  (ECMAScript \<open>GetSubstitution\<close>): \<open>$$\<close> is a dollar sign, \<open>$&\<close> the matched text,
  \<open>$`\<close> the text before the match and \<open>$'\<close> the text after it. A string pattern
  has no capture groups, so \<open>$1\<close> and \<open>$<name>\<close> stay as they are written.
\<close>

fun getSubstitution :: "string \<Rightarrow> string \<Rightarrow> string \<Rightarrow> string \<Rightarrow> string" where
  "getSubstitution matched front back (c # d # rest) =
     (if c = CHR ''$'' \<and> d = CHR ''$'' then CHR ''$'' # getSubstitution matched front back rest
      else if c = CHR ''$'' \<and> d = CHR ''&'' then matched @ getSubstitution matched front back rest
      else if c = CHR ''$'' \<and> d = CHR 0x60 then front @ getSubstitution matched front back rest
      else if c = CHR ''$'' \<and> d = CHR 0x27 then back @ getSubstitution matched front back rest
      else c # getSubstitution matched front back (d # rest))"
| "getSubstitution matched front back rest = rest"

text \<open>The text before and after the first occurrence of the pattern, if there is one.\<close>

fun firstOccurrence :: "string \<Rightarrow> string \<Rightarrow> (string \<times> string) option" where
  "firstOccurrence pat [] = (if pat = [] then Some ([], []) else None)"
| "firstOccurrence pat (c # cs) =
     (if prefix pat (c # cs) then Some ([], drop (length pat) (c # cs))
      else map_option (\<lambda>(front, back). (c # front, back)) (firstOccurrence pat cs))"

definition jsReplace :: "string \<Rightarrow> string \<Rightarrow> string \<Rightarrow> string" where
  "jsReplace s pat replacement =
     (case firstOccurrence pat s of
        None \<Rightarrow> s
      | Some (front, back) \<Rightarrow> front @ getSubstitution pat front back replacement @ back)"

section \<open>The path rewrite of \<open>confirmRename\<close>\<close>

text \<open>
  The entry of an open tab: \<open>{name, content, description, path}\<close>.
\<close>

record openFile =
  f_name :: string
  f_content :: string
  f_description :: string
  f_path :: string

type_synonym openFiles = "(string, openFile) jsmap"

text \<open>
  \<^verbatim>\<open>
  const updatedExpanded = new Set();
  for (const path of this.expandedFolders) {
    if (path === oldPath) updatedExpanded.add(newPath);
    else if (path.startsWith(oldPath + "/")) updatedExpanded.add(path.replace(oldPath, newPath));
    else updatedExpanded.add(path);
  }
  \<close>
\<close>

definition renameExpanded :: "string \<Rightarrow> string \<Rightarrow> string list \<Rightarrow> string list" where
  "renameExpanded oldPath newPath expandedFolders =
     fold (\<lambda>path updatedExpanded.
             if path = oldPath then setAdd updatedExpanded newPath
             else if startsWith path (oldPath @ ''/'')
               then setAdd updatedExpanded (jsReplace path oldPath newPath)
             else setAdd updatedExpanded path)
       expandedFolders []"

text \<open>
  \<^verbatim>\<open>
  const updatedCache = new Map();
  for (const [path, data] of this.folderCache.entries()) {
    if (path === oldPath) {
      updatedCache.set(newPath, data);
    } else if (path.startsWith(oldPath + "/")) {
      updatedCache.set(
        path.replace(oldPath, newPath),
        data.map((item) => ({...item, path: item.path.replace(oldPath, newPath)})));
    } else {
      updatedCache.set(path, data);
    }
  }
  \<close>
\<close>

definition renameFolderCache :: "string \<Rightarrow> string \<Rightarrow> folderCache \<Rightarrow> folderCache" where
  "renameFolderCache oldPath newPath cache =
     fold (\<lambda>(path, data) updatedCache.
             if path = oldPath then mapSet updatedCache newPath data
             else if startsWith path (oldPath @ ''/'')
               then mapSet updatedCache (jsReplace path oldPath newPath)
                      (map (\<lambda>item. item\<lparr>t_path := jsReplace (t_path item) oldPath newPath\<rparr>) data)
             else mapSet updatedCache path data)
       cache []"

text \<open>
  \<^verbatim>\<open>
  const newOpenFiles = new Map();
  for (const [path, fileData] of this.openFiles.entries()) {
    if (path === oldPath) {
      newOpenFiles.set(newPath, {...fileData, path: newPath, name: newName});
    } else if (path.startsWith(oldPath + "/")) {
      const newFilePath = path.replace(oldPath, newPath);
      newOpenFiles.set(newFilePath, {...fileData, path: newFilePath, name: fileData.name});
    } else {
      newOpenFiles.set(path, fileData);
    }
  }
  \<close>
\<close>

definition renameOpenFiles :: "string \<Rightarrow> string \<Rightarrow> string \<Rightarrow> openFiles \<Rightarrow> openFiles" where
  "renameOpenFiles oldPath newPath newName files =
     fold (\<lambda>(path, fileData) newOpenFiles.
             if path = oldPath
               then mapSet newOpenFiles newPath (fileData\<lparr>f_path := newPath, f_name := newName\<rparr>)
             else if startsWith path (oldPath @ ''/'')
               then (let newFilePath = jsReplace path oldPath newPath in
                     mapSet newOpenFiles newFilePath
                       (fileData\<lparr>f_path := newFilePath, f_name := f_name fileData\<rparr>))
             else mapSet newOpenFiles path fileData)
       files []"

text \<open>
  The rewrite of a single stored path, as \<open>confirmRename\<close> applies it to
  \<open>activeTab\<close> and to \<open>selectedItem.path\<close>.
\<close>

definition renamePath :: "string \<Rightarrow> string \<Rightarrow> string \<Rightarrow> string" where
  "renamePath oldPath newPath p =
     (if p = oldPath then newPath
      else if startsWith p (oldPath @ ''/'') then jsReplace p oldPath newPath
      else p)"

text \<open>
  The rewrite of the specification (section 4.4): the old path becomes the new path,
  a path under the old path has that prefix replaced by the new path with the rest
  kept, any other path is unchanged.
\<close>

definition rewrite_spec :: "string \<Rightarrow> string \<Rightarrow> string \<Rightarrow> string" where
  "rewrite_spec oldPath newPath p =
     (if p = oldPath then newPath
      else if startsWith p (oldPath @ ''/'') then newPath @ drop (length oldPath) p
      else p)"

text \<open>
  The entry that one iteration of the loop over the open files stores, and the entry
  that one iteration of the loop over the folder cache stores.
\<close>

definition renameOpenFile ::
  "string \<Rightarrow> string \<Rightarrow> string \<Rightarrow> string \<times> openFile \<Rightarrow> string \<times> openFile" where
  "renameOpenFile oldPath newPath newName kv =
     (if fst kv = oldPath then (newPath, (snd kv)\<lparr>f_path := newPath, f_name := newName\<rparr>)
      else if startsWith (fst kv) (oldPath @ ''/'')
        then (jsReplace (fst kv) oldPath newPath,
              (snd kv)\<lparr>f_path := jsReplace (fst kv) oldPath newPath\<rparr>)
      else kv)"

definition renameCacheEntry ::
  "string \<Rightarrow> string \<Rightarrow> string \<times> treeNode list \<Rightarrow> string \<times> treeNode list" where
  "renameCacheEntry oldPath newPath kv =
     (if fst kv = oldPath then (newPath, snd kv)
      else if startsWith (fst kv) (oldPath @ ''/'')
        then (jsReplace (fst kv) oldPath newPath,
              map (\<lambda>item. item\<lparr>t_path := jsReplace (t_path item) oldPath newPath\<rparr>) (snd kv))
      else kv)"

section \<open>The server: rename and the description store\<close>

text \<open>
  The description store is the JSON object of \<open>descriptions.json\<close>, a map from path to
  text that every request reads and writes as a whole. The state of the server is
  that file (\<open>None\<close> while it does not exist or does not parse, which the handlers
  read as the empty object) and the file system under the upload directory, which the
  handlers only reach through \<open>fs\<close> calls; \<open>fs.rename\<close> is a parameter that returns the
  new file system or fails.
\<close>

record 'fs server =
  fileSystem :: 'fs
  descriptionsFile :: "(string \<rightharpoonup> string) option"

definition readDescriptions :: "'fs server \<Rightarrow> (string \<rightharpoonup> string)" where
  "readDescriptions sv = (case descriptionsFile sv of None \<Rightarrow> Map.empty | Some d \<Rightarrow> d)"

text \<open>A stored text counts in a JavaScript condition when it is there and not empty.\<close>

definition truthy :: "string option \<Rightarrow> bool" where
  "truthy v = (case v of None \<Rightarrow> False | Some t \<Rightarrow> t \<noteq> [])"

text \<open>
  \<^verbatim>\<open>
  const pathNodes = oldPath.split("/");
  pathNodes[pathNodes.length - 1] = newName;
  const newPath = pathNodes.join("/");
  \<close>
\<close>

definition serverNewPath :: "string \<Rightarrow> string \<Rightarrow> string" where
  "serverNewPath oldPath newName =
     (let pathNodes = splitSlash oldPath in
      joinSlash (pathNodes[length pathNodes - 1 := newName]))"

text \<open>
  \<^verbatim>\<open>
  app.put("/api/rename", async (req, res) => {
    try {
      const {oldPath, newName} = req.body;
      const oldFullPath = path.join(UPLOAD_DIR, oldPath);
      const newFullPath = path.join(path.dirname(oldFullPath), newName);
      await fs.rename(oldFullPath, newFullPath);
      let descriptions = {};
      try { descriptions = JSON.parse(await fs.readFile(descriptionsPath, "utf-8")); }
      catch (error) { }
      const pathNodes = oldPath.split("/");
      pathNodes[pathNodes.length - 1] = newName;
      const newPath = pathNodes.join("/");
      if (descriptions[oldPath]) {
        descriptions[newPath] = descriptions[oldPath];
        delete descriptions[oldPath];
        await fs.writeFile(descriptionsPath, JSON.stringify(descriptions, null, 2));
      }
      res.json({success: true, newPath});
    } catch (error) {
      res.status(500).json({error: error.message});
    }
  });
  \<close>
  The result is the new state of the server and the \<open>newPath\<close> of the response, or
  \<open>None\<close> for the status 500. Writing \<open>descriptions.json\<close> is taken to succeed; a
  stored value is a text, and a path is not the name of a property that every
  JavaScript object inherits.
\<close>

definition apiRename ::
  "('fs \<Rightarrow> string \<Rightarrow> string \<Rightarrow> 'fs option) \<Rightarrow> string \<Rightarrow> string \<Rightarrow> 'fs server
     \<Rightarrow> 'fs server \<times> string option" where
  "apiRename fsRename oldPath newName sv =
     (case fsRename (fileSystem sv) oldPath newName of
        None \<Rightarrow> (sv, None)
      | Some fs' \<Rightarrow>
          (let descriptions = readDescriptions sv;
               newPath = serverNewPath oldPath newName;
               sv' = sv\<lparr>fileSystem := fs'\<rparr>
           in if truthy (descriptions oldPath)
              then (sv'\<lparr>descriptionsFile :=
                          Some ((descriptions(newPath := descriptions oldPath))(oldPath := None))\<rparr>,
                    Some newPath)
              else (sv', Some newPath)))"

text \<open>
  \<^verbatim>\<open>
  app.post("/api/description", ...):
    if (!description || description === "") delete descriptions[filePath];
    else descriptions[filePath] = description;
    await fs.writeFile(descriptionsPath, JSON.stringify(descriptions, null, 2));
  \<close>
\<close>

definition apiSetDescription :: "string \<Rightarrow> string \<Rightarrow> 'fs server \<Rightarrow> 'fs server" where
  "apiSetDescription filePath description sv =
     (let descriptions = readDescriptions sv in
      sv\<lparr>descriptionsFile :=
           Some (if description = [] then descriptions(filePath := None)
                 else descriptions(filePath \<mapsto> description))\<rparr>)"

text \<open>
  \<^verbatim>\<open>
  app.get("/api/description", ...):
    res.json(filePath ? {description: descriptions[filePath] || ""}
                      : {description: descriptions});
  \<close>
  The request for one path.
\<close>

definition apiGetDescription :: "string \<Rightarrow> 'fs server \<Rightarrow> string" where
  "apiGetDescription filePath sv =
     (let descriptions = readDescriptions sv in
      if truthy (descriptions filePath) then the (descriptions filePath) else [])"

section \<open>The state of the client\<close>

text \<open>
  The fields of \<open>FileManager\<close>. \<open>selectedItem\<close> and \<open>renameData\<close> are objects
  \<open>{path, type}\<close> or null; \<open>folderCache\<close> and \<open>openFiles\<close> are \<open>Map\<close>s and
  \<open>expandedFolders\<close> is a \<open>Set\<close>; \<open>descriptions\<close> is the plain object the server sent.

  Two fields are not in the source. \<open>trace\<close> records, in order, the folders the reload
  loop of \<open>loadTree\<close> visits and the requests for the children of a folder.
  \<open>pending\<close> holds the work the source starts without awaiting it: the promise of a
  \<open>loadFolderChildren\<close> call whose \<open>then\<close> callback restores the expanded children.
\<close>

record selected =
  s_path :: string
  s_type :: itemType

datatype event = Reexpand string | FetchChildren string

datatype task = AwaitLoad string nat | ThenRestore string

record 'dom fileManager =
  currentPath :: "string option"
  currentFile :: "string option"
  openFiles :: openFiles
  activeTab :: "string option"
  descriptions :: "string \<rightharpoonup> string"
  selectedItem :: "selected option"
  renameData :: "selected option"
  folderCache :: folderCache
  expandedFolders :: "string list"
  dom :: 'dom
  trace :: "event list"
  pending :: "task list"

text \<open>
  The answer of \<open>GET /api/tree\<close>: the node of the folder asked for, with the
  descriptors of its children.
\<close>

record treeResponse = treeNode +
  t_children :: "treeNode list option"

text \<open>
  The remote service, as the answers the client gets during one operation; \<open>None\<close> is
  a failed request (\<open>apiGet\<close> and \<open>apiSend\<close> throw). The answer to the rename request
  is the \<open>newPath\<close> field of the response, which may be absent.
\<close>

record remote =
  getTreeRoot :: "treeResponse option"
  getTree :: "string \<Rightarrow> treeResponse option"
  getDescriptions :: "(string \<rightharpoonup> string) option"
  putRename :: "string \<Rightarrow> string \<Rightarrow> string option option"
  postDescription :: "string \<Rightarrow> string \<Rightarrow> bool"

text \<open>
  The render layer is outside the tree store: the document is a value of a type
  \<open>'dom\<close> that the client only reaches through the queries and the writes below. A
  folder header carries \<open>data-has-children\<close> and \<open>data-level\<close> and is followed by the
  container of its children. A write may read the cache, the expanded set and the
  descriptions, as \<open>renderFolder\<close> and \<open>renderFile\<close> do. \<open>ShowLoading\<close> is the
  placeholder that \<open>loadFolderChildren\<close> puts into a container without children.

  The client looks an element up with \<open>document.querySelector\<close> and a selector that
  holds the path between double quotes, \<open>[data-path="${path}"]\<close>. \<open>queryElement\<close> and
  \<open>queryHeader\<close> give the element such a call finds. Where the text is not a valid
  selector, as for a path with a double quote in it, the call finds nothing and throws
  a \<open>SyntaxError\<close>; \<open>selectorThrows\<close> says for which paths that is so.
\<close>

record header =
  h_hasChildren :: bool
  h_level :: nat

datatype domWrite =
    RenderChildren string nat
  | RenderTree treeResponse
  | ShowLoading string
  | ShowLoadError string
  | ShowTreeError
  | MarkExpanded string
  | MarkActive "string option"
  | HideRenameModal
  | RetargetTabs string string string
  | ClearActiveTabs
  | ShowTab string openFile
  | AlertSaved

record 'dom ui =
  queryElement :: "'dom \<Rightarrow> string \<Rightarrow> itemType option"
  queryHeader :: "'dom \<Rightarrow> string \<Rightarrow> header option"
  queryExpanded :: "'dom \<Rightarrow> string list"
  queryTab :: "'dom \<Rightarrow> string \<Rightarrow> bool"
  selectorThrows :: "string \<Rightarrow> bool"
  render :: "domWrite \<Rightarrow> folderCache \<Rightarrow> string list \<Rightarrow> (string \<rightharpoonup> string) \<Rightarrow> 'dom \<Rightarrow> 'dom"

definition domApply :: "'dom ui \<Rightarrow> domWrite \<Rightarrow> 'dom fileManager \<Rightarrow> 'dom fileManager" where
  "domApply ui w st =
     st\<lparr>dom := render ui w (folderCache st) (expandedFolders st) (descriptions st) (dom st)\<rparr>"

text \<open>The three ways a call of \<open>querySelector\<close> ends.\<close>

datatype 'a lookup = Found 'a | Absent | SyntaxError

definition lookupElement :: "'dom ui \<Rightarrow> 'dom \<Rightarrow> string \<Rightarrow> itemType lookup" where
  "lookupElement ui d path =
     (case queryElement ui d path of
        Some el \<Rightarrow> Found el
      | None \<Rightarrow> if selectorThrows ui path then SyntaxError else Absent)"

definition lookupHeader :: "'dom ui \<Rightarrow> 'dom \<Rightarrow> string \<Rightarrow> header lookup" where
  "lookupHeader ui d path =
     (case queryHeader ui d path of
        Some h \<Rightarrow> Found h
      | None \<Rightarrow> if selectorThrows ui path then SyntaxError else Absent)"

text \<open>
  A function that may throw ends with the state it has reached, either returning or
  throwing: what it wrote before the exception stays written.
\<close>

datatype 's outcome = Done 's | Thrown 's

fun stateOf :: "'s outcome \<Rightarrow> 's" where
  "stateOf (Done s) = s"
| "stateOf (Thrown s) = s"

fun andThen :: "'s outcome \<Rightarrow> ('s \<Rightarrow> 's outcome) \<Rightarrow> 's outcome" where
  "andThen (Done s) f = f s"
| "andThen (Thrown s) f = Thrown s"

section \<open>Loading the children of a folder\<close>

text \<open>\<open>children.map((c) => ({...c, path: this.normalizePath(c.path)}))\<close>.\<close>

definition normalizeChildren :: "treeNode list \<Rightarrow> treeNode list" where
  "normalizeChildren cs = map (\<lambda>c. c\<lparr>t_path := normalizePath (t_path c)\<rparr>) cs"

text \<open>
  \<^verbatim>\<open>
  async loadFolderChildren(folderPath, container, level = 0) {
    if (!container) return;
    const norm = this.normalizePath(folderPath);
    if (this.folderCache.has(norm)) {
      this.renderChildrenFromCache(norm, container, level);
      return;
    }
    try {
      if (!container.children.length) container.innerHTML = '<div class="loading">...</div>';
      const folder = await this.apiGet(`/api/tree?path=${encodeURIComponent(norm)}`);
      const children = (folder.children || []).map((c) => ({...c, path: this.normalizePath(c.path)}));
      this.folderCache.set(norm, children);
      this.renderChildrenFromCache(norm, container, level);
    } catch (err) {
      container.innerHTML = '<div class="error">...</div>';
    }
  }
  \<close>
  Every caller passes the container of a header it has found. \<open>beginLoad\<close> is the
  part before the \<open>await\<close> for a folder that is not cached, \<open>finishLoad\<close> the part
  after it.
\<close>

definition beginLoad :: "'dom ui \<Rightarrow> string \<Rightarrow> 'dom fileManager \<Rightarrow> 'dom fileManager" where
  "beginLoad ui folderPath st =
     (domApply ui (ShowLoading folderPath) st)
       \<lparr>trace := trace st @ [FetchChildren (normalizePath folderPath)]\<rparr>"

definition finishLoad ::
  "'dom ui \<Rightarrow> remote \<Rightarrow> string \<Rightarrow> nat \<Rightarrow> 'dom fileManager \<Rightarrow> 'dom fileManager" where
  "finishLoad ui rem folderPath level st =
     (let norm = normalizePath folderPath in
      case getTree rem norm of
        None \<Rightarrow> domApply ui (ShowLoadError folderPath) st
      | Some folder \<Rightarrow>
          (let children = normalizeChildren (case t_children folder of None \<Rightarrow> [] | Some cs \<Rightarrow> cs)
           in domApply ui (RenderChildren folderPath level)
                (st\<lparr>folderCache := mapSet (folderCache st) norm children\<rparr>)))"

definition loadFolderChildren ::
  "'dom ui \<Rightarrow> remote \<Rightarrow> string \<Rightarrow> nat \<Rightarrow> 'dom fileManager \<Rightarrow> 'dom fileManager" where
  "loadFolderChildren ui rem folderPath level st =
     (if mapHas (folderCache st) (normalizePath folderPath)
      then domApply ui (RenderChildren folderPath level) st
      else finishLoad ui rem folderPath level (beginLoad ui folderPath st))"

text \<open>
  \<^verbatim>\<open>
  restoreExpandedChildren(parentPath) {
    const normParent = this.normalizePath(parentPath);
    const prefix = normParent !== "/" ? normParent + "/" : "/";
    Array.from(this.expandedFolders)
      .filter((p) => p.startsWith(prefix) && p !== normParent)
      .sort((a, b) => a.split("/").length - b.split("/").length)
      .forEach((path) => {
        const header = document.querySelector(`.folder-header[data-path="${path}"]`);
        const container = header?.nextElementSibling;
        if (header && container && header.dataset.hasChildren === "true") {
          this.loadFolderChildren(path, container, parseInt(header.dataset.level || "0"))
            .then(() => { this.restoreExpandedChildren(path); });
        }
      });
    if (this.selectedItem) {
      const selectedPath = this.normalizePath(this.selectedItem.path);
      if (selectedPath === normParent || selectedPath.startsWith(prefix)) {
        const el = document.querySelector(`[data-path="${selectedPath}"]`);
        if (el) { UI.clearActiveItems(); el.classList.add("active"); }
      }
    }
  }
  \<close>
  The calls of \<open>loadFolderChildren\<close> are not awaited. Each runs up to its \<open>await\<close> (or
  to its end, for a cached folder) inside the \<open>forEach\<close>; the rest of it and the
  \<open>then\<close> callback run later and are recorded in \<open>pending\<close>. \<open>Array.prototype.sort\<close>
  is stable, as \<open>sort_key\<close> is. A \<open>querySelector\<close> that throws ends the \<open>forEach\<close>
  and the function.
\<close>

definition spawnLoad :: "'dom ui \<Rightarrow> string \<Rightarrow> nat \<Rightarrow> 'dom fileManager \<Rightarrow> 'dom fileManager" where
  "spawnLoad ui path level st =
     (if mapHas (folderCache st) (normalizePath path)
      then (domApply ui (RenderChildren path level) st)\<lparr>pending := pending st @ [ThenRestore path]\<rparr>
      else (beginLoad ui path st)\<lparr>pending := pending st @ [AwaitLoad path level]\<rparr>)"

fun spawnLoads ::
  "'dom ui \<Rightarrow> string list \<Rightarrow> 'dom fileManager \<Rightarrow> 'dom fileManager outcome" where
  "spawnLoads ui [] st = Done st"
| "spawnLoads ui (path # paths) st =
     (case lookupHeader ui (dom st) path of
        SyntaxError \<Rightarrow> Thrown st
      | Absent \<Rightarrow> spawnLoads ui paths st
      | Found h \<Rightarrow>
          spawnLoads ui paths
            (if h_hasChildren h then spawnLoad ui path (h_level h) st else st))"

definition restoreExpandedChildren ::
  "'dom ui \<Rightarrow> string \<Rightarrow> 'dom fileManager \<Rightarrow> 'dom fileManager outcome" where
  "restoreExpandedChildren ui parentPath st =
     (let normParent = normalizePath parentPath;
          pre = (if normParent \<noteq> ''/'' then normParent @ ''/'' else ''/'');
          paths = sort_key (\<lambda>p. length (splitSlash p))
                    (filter (\<lambda>p. startsWith p pre \<and> p \<noteq> normParent) (expandedFolders st))
      in andThen (spawnLoads ui paths st)
           (\<lambda>st1. case selectedItem st1 of
                     None \<Rightarrow> Done st1
                   | Some sel \<Rightarrow>
                       (let selectedPath = normalizePath (s_path sel) in
                        if selectedPath = normParent \<or> startsWith selectedPath pre
                        then (case lookupElement ui (dom st1) selectedPath of
                                SyntaxError \<Rightarrow> Thrown st1
                              | Absent \<Rightarrow> Done st1
                              | Found el \<Rightarrow> Done (domApply ui (MarkActive (Some selectedPath)) st1))
                        else Done st1)))"

text \<open>
  The completion of a pending task: the response of the request arrives and the
  \<open>then\<close> callback runs. An exception in the callback rejects a promise that nobody
  awaits.
\<close>

definition completeTask ::
  "'dom ui \<Rightarrow> remote \<Rightarrow> task \<Rightarrow> 'dom fileManager \<Rightarrow> 'dom fileManager" where
  "completeTask ui rem t st =
     (case t of
        AwaitLoad path level \<Rightarrow>
          stateOf (restoreExpandedChildren ui path (finishLoad ui rem path level st))
      | ThenRestore path \<Rightarrow> stateOf (restoreExpandedChildren ui path st))"

section \<open>Reloading the tree\<close>

text \<open>
  \<^verbatim>\<open>
  _getAncestorPaths(path) {
    const normalized = this.normalizePath(path);
    if (normalized === "/") return [];
    const parts = normalized.split("/").filter(Boolean);
    const ancestors = [];
    let current = "";
    for (let i = 0; i < parts.length - 1; i++) {
      current += (current ? "/" : "/") + parts[i];
      ancestors.push(current);
    }
    return ancestors;
  }
  \<close>
\<close>

fun ancestorsFrom :: "string \<Rightarrow> string list \<Rightarrow> string list" where
  "ancestorsFrom current (part # next # parts) =
     (current @ ''/'' @ part) # ancestorsFrom (current @ ''/'' @ part) (next # parts)"
| "ancestorsFrom current parts = []"

definition getAncestorPaths :: "string \<Rightarrow> string list" where
  "getAncestorPaths path =
     (let normalized = normalizePath path in
      if normalized = ''/'' then [] else ancestorsFrom [] (segments normalized))"

text \<open>
  \<^verbatim>\<open>
  async ensureAncestorsExpanded(targetPath) {
    const ancestors = this._getAncestorPaths(targetPath);
    for (const anc of ancestors) {
      const header = document.querySelector(`.folder-header[data-path="${anc}"]`);
      const container = header?.nextElementSibling;
      if (!header) continue;
      this.expandedFolders.add(anc);
      header.dataset.expanded = "true";
      if (!this.folderCache.has(anc) && header.dataset.hasChildren === "true") {
        await this.loadFolderChildren(anc, container, parseInt(header.dataset.level || "0"));
      }
    }
  }
  \<close>
\<close>

fun ensureAncestorsLoop ::
  "'dom ui \<Rightarrow> remote \<Rightarrow> string list \<Rightarrow> 'dom fileManager \<Rightarrow> 'dom fileManager outcome" where
  "ensureAncestorsLoop ui rem [] st = Done st"
| "ensureAncestorsLoop ui rem (anc # ancestors) st =
     (case lookupHeader ui (dom st) anc of
        SyntaxError \<Rightarrow> Thrown st
      | Absent \<Rightarrow> ensureAncestorsLoop ui rem ancestors st
      | Found h \<Rightarrow>
          (let st1 = domApply ui (MarkExpanded anc)
                       (st\<lparr>expandedFolders := setAdd (expandedFolders st) anc\<rparr>)
           in ensureAncestorsLoop ui rem ancestors
                (if \<not> mapHas (folderCache st1) anc \<and> h_hasChildren h
                 then loadFolderChildren ui rem anc (h_level h) st1
                 else st1)))"

definition ensureAncestorsExpanded ::
  "'dom ui \<Rightarrow> remote \<Rightarrow> string \<Rightarrow> 'dom fileManager \<Rightarrow> 'dom fileManager outcome" where
  "ensureAncestorsExpanded ui rem targetPath st =
     ensureAncestorsLoop ui rem (getAncestorPaths targetPath) st"

text \<open>
  \<^verbatim>\<open>
  setSelectedItem(path, type) {
    UI.clearActiveItems();
    const el = path ? document.querySelector(`[data-path="${path}"]`) : null;
    if (el) el.classList.add("active");
    this.selectedItem = path ? {path, type} : null;
    this.selectFolder(this.getParentPath(path));     // this.currentPath = folderPath
    UI.toggleActionButtons(!!path, type, path);
  }
  \<close>
  A path that is null or empty counts as no path; \<open>getParentPath\<close> of it is null.
  \<open>MarkActive None\<close> is \<open>UI.clearActiveItems()\<close> alone; the lookup comes after it
  and before the fields are written.
\<close>

definition setSelectedItem ::
  "'dom ui \<Rightarrow> string option \<Rightarrow> itemType \<Rightarrow> 'dom fileManager \<Rightarrow> 'dom fileManager outcome" where
  "setSelectedItem ui path ty st =
     (let p = (case path of None \<Rightarrow> [] | Some q \<Rightarrow> q);
          st1 = domApply ui (MarkActive None) st
      in if p \<noteq> [] \<and> lookupElement ui (dom st1) p = SyntaxError then Thrown st1
         else Done ((domApply ui (MarkActive (if p \<noteq> [] then Some p else None)) st)
                      \<lparr>selectedItem := (if p \<noteq> [] then Some \<lparr>s_path = p, s_type = ty\<rparr> else None),
                       currentPath := getParentPath p\<rparr>))"

text \<open>
  The effect of \<open>renderTree\<close> on the state: \<open>renderFolder\<close> caches the children of a
  node that brings a non-empty \<open>children\<close> list, which only the root of a response
  does; the descriptors it renders below bring none.
\<close>

definition renderTree :: "'dom ui \<Rightarrow> treeResponse \<Rightarrow> 'dom fileManager \<Rightarrow> 'dom fileManager" where
  "renderTree ui node st =
     domApply ui (RenderTree node)
       (case t_children node of
          None \<Rightarrow> st
        | Some cs \<Rightarrow>
            if t_type node = Folder \<and> cs \<noteq> []
            then st\<lparr>folderCache :=
                      mapSet (folderCache st) (normalizePath (t_path node)) (normalizeChildren cs)\<rparr>
            else st)"

text \<open>
  The loop of \<open>loadTree\<close> over the paths that were expanded before the reload:
  \<^verbatim>\<open>
  for (const path of prevExpanded) {
    const header = document.querySelector(`.folder-header[data-path="${path}"]`);
    const container = header?.nextElementSibling;
    if (!header || !container) continue;
    if (!this.folderCache.has(path) && header.dataset.hasChildren === "true") {
      await this.loadFolderChildren(path, container, parseInt(header.dataset.level || "0"));
    }
  }
  \<close>
  Each iteration starts after the awaited load of the one before has ended.
  \<open>reexpandStep\<close> is one iteration; a \<open>querySelector\<close> that throws ends the loop.
\<close>

definition reexpandStep ::
  "'dom ui \<Rightarrow> remote \<Rightarrow> string \<Rightarrow> 'dom fileManager \<Rightarrow> 'dom fileManager outcome" where
  "reexpandStep ui rem path st =
     (let st0 = st\<lparr>trace := trace st @ [Reexpand path]\<rparr> in
      case lookupHeader ui (dom st0) path of
        SyntaxError \<Rightarrow> Thrown st0
      | Absent \<Rightarrow> Done st0
      | Found h \<Rightarrow>
          Done (if \<not> mapHas (folderCache st0) path \<and> h_hasChildren h
                then loadFolderChildren ui rem path (h_level h) st0
                else st0))"

fun reexpandLoop ::
  "'dom ui \<Rightarrow> remote \<Rightarrow> string list \<Rightarrow> 'dom fileManager \<Rightarrow> 'dom fileManager outcome" where
  "reexpandLoop ui rem [] st = Done st"
| "reexpandLoop ui rem (path # paths) st =
     (case reexpandStep ui rem path st of
        Thrown s \<Rightarrow> Thrown s
      | Done s \<Rightarrow> reexpandLoop ui rem paths s)"

text \<open>
  \<^verbatim>\<open>
  prevExpanded.sort((a, b) =>
      (a ? a.split("/").filter(Boolean).length : 0) -
      (b ? b.split("/").filter(Boolean).length : 0));
  \<close>
\<close>

definition depth :: "string \<Rightarrow> nat" where
  "depth p = length (segments p)"

definition sortByDepth :: "string list \<Rightarrow> string list" where
  "sortByDepth prevExpanded = sort_key depth prevExpanded"

text \<open>
  \<^verbatim>\<open>
  if (prevSelected) {
    const el = document.querySelector(`[data-path="${prevSelected}"]`);
    if (el) {
      const type = el.dataset.type || (el.classList.contains("file") ? "file" : "folder");
      this.setSelectedItem(prevSelected, type);
    } else {
      await this.ensureAncestorsExpanded(prevSelected);
      const el2 = document.querySelector(`[data-path="${prevSelected}"]`);
      if (el2) this.setSelectedItem(prevSelected, el2.dataset.type || "file");
    }
  }
  \<close>
\<close>

definition restoreSelection ::
  "'dom ui \<Rightarrow> remote \<Rightarrow> string option \<Rightarrow> 'dom fileManager \<Rightarrow> 'dom fileManager outcome" where
  "restoreSelection ui rem prevSelected st =
     (case prevSelected of
        None \<Rightarrow> Done st
      | Some p \<Rightarrow>
          (case lookupElement ui (dom st) p of
             SyntaxError \<Rightarrow> Thrown st
           | Found ty \<Rightarrow> setSelectedItem ui (Some p) ty st
           | Absent \<Rightarrow>
               andThen (ensureAncestorsExpanded ui rem p st)
                 (\<lambda>st1. case lookupElement ui (dom st1) p of
                           SyntaxError \<Rightarrow> Thrown st1
                         | Found ty \<Rightarrow> setSelectedItem ui (Some p) ty st1
                         | Absent \<Rightarrow> Done st1)))"

text \<open>\<open>this.selectedItem?.path || this.currentPath || null\<close>.\<close>

definition prevSelectedOf :: "'dom fileManager \<Rightarrow> string option" where
  "prevSelectedOf st =
     (let cur = (case currentPath st of
                   None \<Rightarrow> None
                 | Some p \<Rightarrow> if p \<noteq> [] then Some p else None)
      in case selectedItem st of
           None \<Rightarrow> cur
         | Some sel \<Rightarrow> if s_path sel \<noteq> [] then Some (s_path sel) else cur)"

text \<open>
  \<^verbatim>\<open>
  async loadTree() {
    try {
      const prevExpanded = Array.from(
        document.querySelectorAll(".folder-header[data-expanded='true']")).map((el) => el.dataset.path);
      this.expandedFolders = new Set(prevExpanded);
      const prevSelected = this.selectedItem?.path || this.currentPath || null;
      const tree = await this.apiGet("/api/tree");
      if (tree && tree.children) {
        const normalizedChildren = tree.children.map((c) => ({...c, path: this.normalizePath(c.path)}));
        this.folderCache.set(this.normalizePath(tree.path), normalizedChildren);
      }
      this.renderTree({...tree, path: this.normalizePath(tree.path)});
      prevExpanded.sort(...);
      for (const path of prevExpanded) { ... }
      if (prevSelected) { ... }
      if (this.expandedFolders.size > 0) this.restoreExpandedChildren("/");
    } catch (e) {
      UI.byId("file-tree").innerHTML = '<div class="error">...</div>';
    }
  }
  \<close>
  \<open>loadTreeStart\<close> is the part from the answer to the request for the root to the
  start of the loop and \<open>loadTreeFinish\<close> the part after the loop. The \<open>catch\<close>
  takes a failed request and an exception of a lookup alike.
\<close>

definition loadTreeStart ::
  "'dom ui \<Rightarrow> treeResponse \<Rightarrow> 'dom fileManager \<Rightarrow> 'dom fileManager" where
  "loadTreeStart ui tree st1 =
     renderTree ui (tree\<lparr>t_path := normalizePath (t_path tree)\<rparr>)
       (case t_children tree of
          None \<Rightarrow> st1
        | Some cs \<Rightarrow>
            st1\<lparr>folderCache :=
                  mapSet (folderCache st1) (normalizePath (t_path tree)) (normalizeChildren cs)\<rparr>)"

definition loadTreeFinish ::
  "'dom ui \<Rightarrow> remote \<Rightarrow> string option \<Rightarrow> 'dom fileManager \<Rightarrow> 'dom fileManager outcome" where
  "loadTreeFinish ui rem prevSelected st4 =
     andThen (restoreSelection ui rem prevSelected st4)
       (\<lambda>st5. if expandedFolders st5 \<noteq> []
              then restoreExpandedChildren ui ''/'' st5
              else Done st5)"

definition loadTree :: "'dom ui \<Rightarrow> remote \<Rightarrow> 'dom fileManager \<Rightarrow> 'dom fileManager" where
  "loadTree ui rem st =
     (let prevExpanded = queryExpanded ui (dom st);
          st1 = st\<lparr>expandedFolders := setOfArray prevExpanded\<rparr>;
          prevSelected = prevSelectedOf st1
      in case getTreeRoot rem of
           None \<Rightarrow> domApply ui ShowTreeError st1
         | Some tree \<Rightarrow>
             (case andThen (reexpandLoop ui rem (sortByDepth prevExpanded) (loadTreeStart ui tree st1))
                     (loadTreeFinish ui rem prevSelected) of
                Done s \<Rightarrow> s
              | Thrown s \<Rightarrow> domApply ui ShowTreeError s))"

text \<open>
  \<^verbatim>\<open>
  async loadDescriptions() {
    try {
      const response = await this.apiGet("/api/description");
      this.descriptions = response.description;
    } catch (e) { console.error(...); }
  }
  async refreshTreeAndDescriptions() {
    await Promise.all([this.loadTree(), this.loadDescriptions()]);
  }
  \<close>
  The two run side by side and write different fields; the model lets the answer
  with the descriptions arrive after the tree is reloaded.
\<close>

definition loadDescriptions :: "remote \<Rightarrow> 'dom fileManager \<Rightarrow> 'dom fileManager" where
  "loadDescriptions rem st =
     (case getDescriptions rem of
        None \<Rightarrow> st
      | Some d \<Rightarrow> st\<lparr>descriptions := d\<rparr>)"

definition refreshTreeAndDescriptions ::
  "'dom ui \<Rightarrow> remote \<Rightarrow> 'dom fileManager \<Rightarrow> 'dom fileManager" where
  "refreshTreeAndDescriptions ui rem st = loadDescriptions rem (loadTree ui rem st)"

section \<open>Tabs, rename and descriptions\<close>

text \<open>
  \<^verbatim>\<open>
  switchToTab(filePath) {
    if (!this.openFiles.has(filePath)) return;
    document.querySelectorAll(".file-tab").forEach((t) => t.classList.remove("active"));
    const tab = document.querySelector(`[data-file="${filePath}"]`);
    tab.scrollIntoView({behavior: "smooth", block: "nearest"});
    if (tab) tab.classList.add("active");
    this.activeTab = filePath;
    this.currentFile = filePath;
    const fileData = this.openFiles.get(filePath);
    ... // editor title, description, content
  }
  \<close>
  Without a tab element \<open>tab.scrollIntoView\<close> throws, and so does the lookup of the
  tab for a path that makes no valid selector; the fields stay as they are then. The
  caller modelled here catches the exception and only logs it.
\<close>

definition switchToTab :: "'dom ui \<Rightarrow> string \<Rightarrow> 'dom fileManager \<Rightarrow> 'dom fileManager" where
  "switchToTab ui filePath st =
     (case mapGet (openFiles st) filePath of
        None \<Rightarrow> st
      | Some fileData \<Rightarrow>
          (let st1 = domApply ui ClearActiveTabs st in
           if \<not> queryTab ui (dom st1) filePath then st1
           else domApply ui (ShowTab filePath fileData)
                  (st1\<lparr>activeTab := Some filePath, currentFile := Some filePath\<rparr>)))"

text \<open>
  \<open>confirmRename\<close> (lines 785 to 913 of \<open>public/app.js\<close>). \<open>newName\<close> is the trimmed
  value of the input field. The request is sent with \<open>this.renameData.path\<close>; every
  statement after it runs only when \<open>apiSend\<close> has returned, and the \<open>catch\<close> of the
  function only logs. \<open>renameRewrite\<close> is the stretch from the response to the
  invalidation of the parent folder, which has no \<open>await\<close> and renders no tree;
  \<open>renameReload\<close> is the reload that follows it.
  \<^verbatim>\<open>
  async confirmRename() {
    const newName = UI.byId("rename-input").value.trim();
    if (!newName) return;
    try {
      const res = await this.apiSend("/api/rename", "PUT", {oldPath: this.renameData.path, newName});
      const oldPath = this.normalizePath(this.renameData.path);
      const newPath = res.newPath || this.getParentPath(oldPath) + "/" + newName;
      UI.hideModal("rename-modal");
      ... // expandedFolders, folderCache, openFiles, the tabs, activeTab, selectedItem
      const parentPath = this.getParentPath(oldPath) || "/";
      this.invalidateLoadedFolders(parentPath);
      const header = document.querySelector(`.folder-header[data-path="${parentPath}"]`);
      const container = header?.nextElementSibling;
      if (header && container) {
        await this.loadFolderChildren(parentPath, container, parseInt(header.dataset.level || "0"));
        this.restoreExpandedChildren(parentPath);
      } else {
        await this.refreshTreeAndDescriptions();
      }
      if (this.activeTab) this.switchToTab(this.activeTab);
    } catch (e) {
      console.error(...);
    }
  }
  \<close>
\<close>

definition renameNewPath :: "string option \<Rightarrow> string \<Rightarrow> string \<Rightarrow> string" where
  "renameNewPath res oldPath newName =
     (let fallback = (case getParentPath oldPath of None \<Rightarrow> ''null'' | Some pp \<Rightarrow> pp)
                       @ ''/'' @ newName
      in case res of
           None \<Rightarrow> fallback
         | Some np \<Rightarrow> if np \<noteq> [] then np else fallback)"

text \<open>\<open>this.getParentPath(oldPath) || "/"\<close>.\<close>

definition renameParentPath :: "string \<Rightarrow> string" where
  "renameParentPath oldPath = (case getParentPath oldPath of None \<Rightarrow> ''/'' | Some pp \<Rightarrow> pp)"

definition renameRewrite ::
  "'dom ui \<Rightarrow> string \<Rightarrow> string \<Rightarrow> string \<Rightarrow> 'dom fileManager \<Rightarrow> 'dom fileManager" where
  "renameRewrite ui oldPath newPath newName st =
     (let st1 = domApply ui HideRenameModal st;
          st2 = st1\<lparr>expandedFolders := renameExpanded oldPath newPath (expandedFolders st1)\<rparr>;
          st3 = st2\<lparr>folderCache := renameFolderCache oldPath newPath (folderCache st2)\<rparr>;
          st4 = st3\<lparr>openFiles := renameOpenFiles oldPath newPath newName (openFiles st3)\<rparr>;
          st5 = domApply ui (RetargetTabs oldPath newPath newName) st4;
          st6 = st5\<lparr>activeTab :=
                       (case activeTab st5 of
                          None \<Rightarrow> None
                        | Some t \<Rightarrow>
                            if t = [] then Some t
                            else Some (renamePath oldPath newPath t))\<rparr>;
          st7 = st6\<lparr>selectedItem :=
                       map_option
                         (\<lambda>sel. sel\<lparr>s_path := renamePath oldPath newPath (s_path sel)\<rparr>)
                         (selectedItem st6)\<rparr>
      in st7\<lparr>folderCache := invalidateLoadedFolders (renameParentPath oldPath) (folderCache st7)\<rparr>)"

definition renameReload ::
  "'dom ui \<Rightarrow> remote \<Rightarrow> string \<Rightarrow> 'dom fileManager \<Rightarrow> 'dom fileManager" where
  "renameReload ui rem parentPath st8 =
     (let reloaded =
            (case lookupHeader ui (dom st8) parentPath of
               SyntaxError \<Rightarrow> Thrown st8
             | Found h \<Rightarrow>
                 restoreExpandedChildren ui parentPath
                   (loadFolderChildren ui rem parentPath (h_level h) st8)
             | Absent \<Rightarrow> Done (refreshTreeAndDescriptions ui rem st8))
      in case reloaded of
           Thrown s \<Rightarrow> s
         | Done st9 \<Rightarrow>
             (case activeTab st9 of
                None \<Rightarrow> st9
              | Some t \<Rightarrow> if t = [] then st9 else switchToTab ui t st9))"

definition confirmRename ::
  "'dom ui \<Rightarrow> remote \<Rightarrow> string \<Rightarrow> 'dom fileManager \<Rightarrow> 'dom fileManager" where
  "confirmRename ui rem newName st =
     (if newName = [] then st
      else case renameData st of
        None \<Rightarrow> st
      | Some rd \<Rightarrow>
          (case putRename rem (s_path rd) newName of
             None \<Rightarrow> st
           | Some res \<Rightarrow>
               (let oldPath = normalizePath (s_path rd);
                    newPath = renameNewPath res oldPath newName
                in renameReload ui rem (renameParentPath oldPath)
                     (renameRewrite ui oldPath newPath newName st))))"

text \<open>
  \<open>saveDescription\<close> (lines 915 to 955). \<open>description\<close> is the value of the text
  area.
  \<^verbatim>\<open>
  async saveDescription() {
    if (!this.currentFile) return;
    const description = UI.byId("file-description").value;
    try {
      await this.apiSend("/api/description", "POST", {path: this.currentFile, description});
      this.descriptions[this.currentFile] = description;
      if (this.openFiles.has(this.currentFile)) {
        this.openFiles.get(this.currentFile).description = description;
      }
      const fileEl = document.querySelector(`[data-path="${this.currentFile}"]`);
      if (fileEl) {
        const parentPath = this.currentFile.split("/").slice(0, -1).join("/") || "/";
        const header = document.querySelector(`.folder-header[data-path="${parentPath}"]`);
        const container = header?.nextElementSibling;
        if (header && container) {
          this.invalidateLoadedFolders(parentPath);
          await this.loadFolderChildren(parentPath, container, parseInt(header.dataset.level || "0"));
          this.restoreExpandedChildren(parentPath);
        }
      }
      alert(...);
    } catch (e) { console.error(...); }
  }
  \<close>
  An exception of a lookup skips the rest, the alert included.
\<close>

definition descriptionParent :: "string \<Rightarrow> string" where
  "descriptionParent file =
     (let joined = joinSlash (butlast (splitSlash file)) in
      if joined = [] then ''/'' else joined)"

definition saveDescription ::
  "'dom ui \<Rightarrow> remote \<Rightarrow> string \<Rightarrow> 'dom fileManager \<Rightarrow> 'dom fileManager" where
  "saveDescription ui rem description st =
     (case currentFile st of
        None \<Rightarrow> st
      | Some cf \<Rightarrow>
          if cf = [] then st
          else if \<not> postDescription rem cf description then st
          else
            (let st1 = st\<lparr>descriptions := (descriptions st)(cf \<mapsto> description)\<rparr>;
                 st2 = (case mapGet (openFiles st1) cf of
                          None \<Rightarrow> st1
                        | Some fileData \<Rightarrow>
                            st1\<lparr>openFiles :=
                                  mapSet (openFiles st1) cf
                                    (fileData\<lparr>f_description := description\<rparr>)\<rparr>);
                 parentPath = descriptionParent cf;
                 st3 = (case lookupElement ui (dom st2) cf of
                          SyntaxError \<Rightarrow> Thrown st2
                        | Absent \<Rightarrow> Done st2
                        | Found fileEl \<Rightarrow>
                            (case lookupHeader ui (dom st2) parentPath of
                               SyntaxError \<Rightarrow> Thrown st2
                             | Absent \<Rightarrow> Done st2
                             | Found h \<Rightarrow>
                                 restoreExpandedChildren ui parentPath
                                   (loadFolderChildren ui rem parentPath (h_level h)
                                      (st2\<lparr>folderCache :=
                                             invalidateLoadedFolders parentPath (folderCache st2)\<rparr>))))
             in case st3 of
                  Thrown s \<Rightarrow> s
                | Done s \<Rightarrow> domApply ui AlertSaved s))"

section \<open>A scenario\<close>

text \<open>
  The folder \<open>/a\<close> is expanded and shows the file \<open>f.txt\<close> and the folder \<open>b\<close>; \<open>b\<close>
  was expanded once, so its children are cached, and is collapsed again. The file
  \<open>/a/f.txt\<close> is open in the active tab and selected, and \<open>/a\<close> is the item of the
  rename dialog. The document does not change under the writes of this scenario, a
  selector is invalid for a path with a double quote, the
  server answers the requests for the root and for the children of \<open>/a\<close> and
  accepts a description, and it refuses the rename.
\<close>

definition nodeF :: treeNode where
  "nodeF = \<lparr>t_name = ''f.txt'', t_path = ''/a/f.txt'', t_type = File, t_hasChildren = None\<rparr>"

definition nodeB :: treeNode where
  "nodeB = \<lparr>t_name = ''b'', t_path = ''/a/b'', t_type = Folder, t_hasChildren = Some True\<rparr>"

definition nodeA :: treeNode where
  "nodeA = \<lparr>t_name = ''a'', t_path = ''/a'', t_type = Folder, t_hasChildren = Some True\<rparr>"

definition nodeC :: treeNode where
  "nodeC = \<lparr>t_name = ''c.txt'', t_path = ''/a/b/c.txt'', t_type = File, t_hasChildren = None\<rparr>"

definition scenarioUi :: "unit ui" where
  "scenarioUi =
     \<lparr>queryElement = (\<lambda>d p. if p = ''/a/f.txt'' then Some File
                              else if p = ''/a'' \<or> p = ''/a/b'' then Some Folder else None),
      queryHeader = (\<lambda>d p. if p = ''/a'' then Some \<lparr>h_hasChildren = True, h_level = 1\<rparr>
                             else if p = ''/a/b'' then Some \<lparr>h_hasChildren = True, h_level = 2\<rparr>
                             else None),
      queryExpanded = (\<lambda>d. [''/a'']),
      queryTab = (\<lambda>d p. p = ''/a/f.txt''),
      selectorThrows = (\<lambda>p. CHR 0x22 \<in> set p),
      render = (\<lambda>w c e ds d. d)\<rparr>"

definition scenarioRemote :: remote where
  "scenarioRemote =
     \<lparr>getTreeRoot = Some \<lparr>t_name = ''uploads'', t_path = [], t_type = Folder,
                           t_hasChildren = Some True, t_children = Some [nodeA]\<rparr>,
      getTree = (\<lambda>p. if p = ''/a''
                       then Some \<lparr>t_name = ''a'', t_path = ''/a'', t_type = Folder,
                                  t_hasChildren = Some True, t_children = Some [nodeF, nodeB]\<rparr>
                       else None),
      getDescriptions = None,
      putRename = (\<lambda>oldPath newName. None),
      postDescription = (\<lambda>p description. True)\<rparr>"

definition scenarioState :: "unit fileManager" where
  "scenarioState =
     \<lparr>currentPath = Some ''/a'',
      currentFile = Some ''/a/f.txt'',
      openFiles = [(''/a/f.txt'', \<lparr>f_name = ''f.txt'', f_content = ''hello'',
                                     f_description = [], f_path = ''/a/f.txt''\<rparr>)],
      activeTab = Some ''/a/f.txt'',
      descriptions = Map.empty,
      selectedItem = Some \<lparr>s_path = ''/a/f.txt'', s_type = File\<rparr>,
      renameData = Some \<lparr>s_path = ''/a'', s_type = Folder\<rparr>,
      folderCache = [(''/'', [nodeA]), (''/a'', [nodeF, nodeB]), (''/a/b'', [nodeC])],
      expandedFolders = [''/a''],
      dom = (),
      trace = [],
      pending = []\<rparr>"




section \<open>Path normalisation\<close>

lemma rev_dropWhile_rev_hd:
  "xs \<noteq> [] \<Longrightarrow> \<not> P (hd xs) \<Longrightarrow> rev (dropWhile P (rev xs)) \<noteq> [] \<and> hd (rev (dropWhile P (rev xs))) = hd xs"
  by (cases xs) (auto simp: dropWhile_append)

lemma trim_Nil_iff: "trimSlashes p = [] \<longleftrightarrow> (\<forall>c\<in>set p. c = slash)"
proof
  assume "trimSlashes p = []"
  then have "dropWhile isSlash (rev (dropWhile isSlash p)) = []"
    unfolding trimSlashes_def by (simp only: rev_is_Nil_conv)
  then have all: "\<forall>c\<in>set (dropWhile isSlash p). isSlash c"
    by (simp only: dropWhile_eq_Nil_conv set_rev)
  have "dropWhile isSlash p = []"
  proof (rule ccontr)
    assume ne: "dropWhile isSlash p \<noteq> []"
    then have "\<not> isSlash (hd (dropWhile isSlash p))" by (rule hd_dropWhile)
    moreover from ne have "hd (dropWhile isSlash p) \<in> set (dropWhile isSlash p)" by (rule hd_in_set)
    ultimately show False using all by blast
  qed
  then show "\<forall>c\<in>set p. c = slash" by (simp add: isSlash_def)
next
  assume "\<forall>c\<in>set p. c = slash"
  then have "dropWhile isSlash p = []" by (simp add: isSlash_def)
  then show "trimSlashes p = []" by (simp add: trimSlashes_def del: dropWhile_eq_Nil_conv)
qed

lemma trim_last: "trimSlashes p \<noteq> [] \<Longrightarrow> last (trimSlashes p) \<noteq> slash"
  unfolding trimSlashes_def
  by (metis hd_dropWhile isSlash_def last_rev rev_is_Nil_conv)

lemma trim_hd: "trimSlashes p \<noteq> [] \<Longrightarrow> hd (trimSlashes p) \<noteq> slash"
proof -
  assume a: "trimSlashes p \<noteq> []"
  let ?q = "dropWhile isSlash p"
  from a have q: "?q \<noteq> []" by (auto simp: trimSlashes_def dest: set_dropWhileD)
  then have "\<not> isSlash (hd ?q)" by (rule hd_dropWhile)
  with q have "hd (rev (dropWhile isSlash (rev ?q))) = hd ?q"
    using rev_dropWhile_rev_hd by blast
  with \<open>\<not> isSlash (hd ?q)\<close> show ?thesis by (simp add: trimSlashes_def isSlash_def)
qed

lemma trim_fix:
  assumes "t \<noteq> []" "hd t \<noteq> slash" "last t \<noteq> slash"
  shows "trimSlashes (slash # t) = t"
proof -
  have 1: "dropWhile isSlash (slash # t) = t"
    using assms by (cases t) (auto simp: isSlash_def)
  have 2: "dropWhile isSlash (rev t) = rev t"
    using assms by (cases t rule: rev_cases) (auto simp: isSlash_def)
  show ?thesis by (simp only: trimSlashes_def 1 2 rev_rev_ident)
qed

lemma normalizePath_cases:
  "normalizePath p = (if trimSlashes p = [] then ''/'' else slash # trimSlashes p)"
proof -
  have "trimSlashes ''/'' = []" by (simp add: trimSlashes_def isSlash_def)
  moreover have "trimSlashes [] = []" by (simp add: trimSlashes_def)
  moreover have "trimSlashes p \<noteq> [] \<Longrightarrow> \<not> startsWith (trimSlashes p) ''/''"
    using trim_hd[of p] by (cases "trimSlashes p") (auto simp: startsWith_def)
  ultimately show ?thesis by (auto simp: normalizePath_def Let_def)
qed

text \<open>
  Claim C6. \<open>normalizePath\<close> is idempotent: normalising a normalised path gives the
  same path, for every input string (the empty string, \<open>/\<close>, \<open>a/b/\<close> and \<open>/a//b\<close>
  included).
\<close>

theorem normalizePath_idempotent: "normalizePath (normalizePath p) = normalizePath p"
proof (cases "trimSlashes p = []")
  case True
  have "trimSlashes ''/'' = []" by (simp add: trimSlashes_def isSlash_def)
  with True show ?thesis by (simp add: normalizePath_cases)
next
  case False
  then have "trimSlashes (slash # trimSlashes p) = trimSlashes p"
    by (intro trim_fix trim_hd trim_last)
  with False show ?thesis by (simp add: normalizePath_cases)
qed


lemma splitSlash_not_Nil: "splitSlash t \<noteq> []"
  by (induction t) (auto split: list.splits)

lemma hd_splitSlash_Nil: "hd (splitSlash t) = [] \<longleftrightarrow> t = [] \<or> hd t = slash"
  by (cases t) (auto split: list.splits)

lemma doubleSlash_Cons:
  "doubleSlash (c # cs) \<longleftrightarrow> (c = slash \<and> cs \<noteq> [] \<and> hd cs = slash) \<or> doubleSlash cs"
  by (cases cs) auto

lemma Nil_in_set_iff: "xs \<noteq> [] \<Longrightarrow> [] \<in> set xs \<longleftrightarrow> hd xs = [] \<or> [] \<in> set (tl xs)"
  by (cases xs) auto

lemma Nil_in_tl_splitSlash:
  "[] \<in> set (tl (splitSlash t)) \<longleftrightarrow> (t \<noteq> [] \<and> last t = slash) \<or> doubleSlash t"
proof (induction t)
  case Nil
  show ?case by simp
next
  case (Cons c cs)
  show ?case
  proof (cases "c = slash")
    case True
    have "[] \<in> set (splitSlash cs) \<longleftrightarrow>
            (cs = [] \<or> hd cs = slash) \<or> (cs \<noteq> [] \<and> last cs = slash) \<or> doubleSlash cs"
      using Nil_in_set_iff[OF splitSlash_not_Nil, of cs] Cons.IH
      by (simp add: hd_splitSlash_Nil)
    with True show ?thesis by (auto simp: doubleSlash_Cons)
  next
    case False
    obtain seg segs where sp: "splitSlash cs = seg # segs"
      using splitSlash_not_Nil[of cs] by (cases "splitSlash cs") auto
    with False Cons.IH show ?thesis by (auto simp: doubleSlash_Cons)
  qed
qed

lemma Nil_in_splitSlash:
  "[] \<in> set (splitSlash t) \<longleftrightarrow> t = [] \<or> hd t = slash \<or> last t = slash \<or> doubleSlash t"
  using Nil_in_set_iff[OF splitSlash_not_Nil, of t]
  by (auto simp: hd_splitSlash_Nil Nil_in_tl_splitSlash)

text \<open>
  Claim C3, as the code has it. For every input string, \<open>normalizePath\<close> returns a
  path that begins with a slash; it is exactly \<open>/\<close> when the input is empty or made of
  slashes only; otherwise it neither ends with a slash nor has a slash right after the
  leading one. Slashes inside the input are kept as they are: the result is in the
  canonical form of the specification exactly when the trimmed input has no two
  adjacent slashes.
\<close>

theorem normalizePath_form:
  "startsWith (normalizePath p) ''/'' \<and>
   (normalizePath p = ''/'' \<longleftrightarrow> (\<forall>c\<in>set p. c = slash)) \<and>
   (normalizePath p = ''/'' \<or>
      (last (normalizePath p) \<noteq> slash \<and> hd (tl (normalizePath p)) \<noteq> slash)) \<and>
   (canonical_spec (normalizePath p) \<longleftrightarrow> \<not> doubleSlash (trimSlashes p))"
proof (cases "trimSlashes p = []")
  case True
  then show ?thesis
    using trim_Nil_iff[of p] by (simp add: normalizePath_cases startsWith_def canonical_spec_def)
next
  case False
  then have "[] \<in> set (splitSlash (trimSlashes p)) \<longleftrightarrow> doubleSlash (trimSlashes p)"
    using trim_hd[of p] trim_last[of p] by (simp add: Nil_in_splitSlash)
  moreover from False have "\<not> (\<forall>c\<in>set p. c = slash)" by (simp add: trim_Nil_iff)
  ultimately show ?thesis
    using False trim_hd[of p] trim_last[of p]
    by (simp add: normalizePath_cases startsWith_def canonical_spec_def)
qed

text \<open>The theorem at the input \<open>a/b/\<close>.\<close>

theorem normalizePath_form_witness:
  "normalizePath ''a/b/'' = ''/a/b'' \<and> canonical_spec (normalizePath ''a/b/'')"
  using normalizePath_form[of "''a/b/''"]
  by (simp add: normalizePath_def trimSlashes_def isSlash_def startsWith_def)

text \<open>
  Claim C3 as it is written fails: \<open>normalizePath\<close> trims the ends only, so the empty
  segment of \<open>/a//b\<close> stays in the result.
\<close>

theorem normalizePath_canonical_counterexample:
  "normalizePath ''/a//b'' = ''/a//b'' \<and> \<not> canonical_spec (normalizePath ''/a//b'')"
  by (simp add: normalizePath_def trimSlashes_def isSlash_def startsWith_def canonical_spec_def)

section \<open>Cache invalidation\<close>

lemma filter_eqI: "(\<And>x. x \<in> set xs \<Longrightarrow> P x = Q x) \<Longrightarrow> filter P xs = filter Q xs"
  by (rule filter_cong) auto

lemma mapDelete_filter: "mapDelete c key = filter (\<lambda>kv. fst kv \<noteq> key) c"
  by (induction c) (auto simp: mapDelete_def AList.delete_eq)

lemma fold_delete_filter:
  "fold (\<lambda>key c. if P key then mapDelete c key else c) keys c =
     filter (\<lambda>kv. \<not> (fst kv \<in> set keys \<and> P (fst kv))) c"
proof (induction keys arbitrary: c)
  case Nil
  show ?case by simp
next
  case (Cons key keys)
  have "filter (\<lambda>kv. \<not> (fst kv \<in> set keys \<and> P (fst kv))) (if P key then mapDelete c key else c)
        = filter (\<lambda>kv. \<not> (fst kv \<in> set (key # keys) \<and> P (fst kv))) c"
    by (cases "P key") (auto simp: mapDelete_filter intro!: filter_eqI)
  then show ?case by (simp add: Cons.IH)
qed

lemma invalidate_as_filter:
  "invalidateLoadedFolders p cache =
     (if normalizePath p = ''/'' then []
      else filter (\<lambda>kv. \<not> (fst kv = normalizePath p \<or> startsWith (fst kv) (normalizePath p @ ''/''))) cache)"
proof (cases "normalizePath p = ''/''")
  case True
  then show ?thesis by (simp add: invalidateLoadedFolders_def)
next
  case False
  have "filter (\<lambda>kv. \<not> (fst kv \<in> set (mapKeys cache) \<and>
            (fst kv = normalizePath p \<or> startsWith (fst kv) (normalizePath p @ ''/'')))) cache
      = filter (\<lambda>kv. \<not> (fst kv = normalizePath p \<or> startsWith (fst kv) (normalizePath p @ ''/''))) cache"
    by (rule filter_eqI) (simp add: mapKeys_def)
  with False show ?thesis
    unfolding invalidateLoadedFolders_def Let_def fold_delete_filter by simp
qed

lemma map_fst_filter: "map fst (filter (\<lambda>kv. Q (fst kv)) cache) = filter Q (map fst cache)"
  by (induction cache) auto

lemma invalidate_filter_isDescendant:
  "invalidateLoadedFolders p cache =
     filter (\<lambda>kv. \<not> isDescendant (normalizePath p) (fst kv)) cache"
  by (simp add: invalidate_as_filter isDescendant_def)

text \<open>
  Claim C5. \<open>invalidateLoadedFolders p\<close> removes exactly the cache entries whose key is
  the path or a descendant of it in the sense of \<open>isDescendant\<close>, and keeps the other
  entries with their values and in their order; invalidating the root removes every
  entry. The function normalises its argument first, so the first conjunct speaks of
  \<open>normalizePath p\<close>; for a path in canonical form that is \<open>p\<close> itself.
\<close>

theorem invalidate_removes_descendants:
  "invalidateLoadedFolders p cache =
     filter (\<lambda>kv. \<not> isDescendant (normalizePath p) (fst kv)) cache \<and>
   (normalizePath p = p \<longrightarrow>
     invalidateLoadedFolders p cache = filter (\<lambda>kv. \<not> isDescendant p (fst kv)) cache \<and>
     mapKeys (invalidateLoadedFolders p cache) = filter (\<lambda>k. \<not> isDescendant p k) (mapKeys cache)) \<and>
   invalidateLoadedFolders ''/'' cache = []"
proof -
  have 1: "invalidateLoadedFolders p cache =
     filter (\<lambda>kv. \<not> isDescendant (normalizePath p) (fst kv)) cache"
    by (rule invalidate_filter_isDescendant)
  have 2: "invalidateLoadedFolders ''/'' cache = []"
    by (simp add: invalidate_as_filter normalizePath_def)
  have 3: "normalizePath p = p \<Longrightarrow>
     mapKeys (invalidateLoadedFolders p cache) = filter (\<lambda>k. \<not> isDescendant p k) (mapKeys cache)"
    unfolding 1 mapKeys_def using map_fst_filter[of "\<lambda>k. \<not> isDescendant p k" cache] by simp
  show ?thesis using 1 2 3 by simp
qed

text \<open>The theorem at the path \<open>/a\<close> and a cache with the keys \<open>/a\<close>, \<open>/a/b\<close>, \<open>/ab\<close>, \<open>/x\<close>.\<close>

theorem invalidate_removes_descendants_witness:
  "normalizePath ''/a'' = ''/a'' \<and>
   mapKeys (invalidateLoadedFolders ''/a'' [(''/a'', []), (''/a/b'', []), (''/ab'', []), (''/x'', [])])
     = [''/ab'', ''/x'']"
  using invalidate_removes_descendants[of "''/a''" "[(''/a'', []), (''/a/b'', []), (''/ab'', []), (''/x'', [])]"]
  by (simp add: normalizePath_def trimSlashes_def isSlash_def startsWith_def isDescendant_def mapKeys_def)

text \<open>
  Claim C2 as it is written fails: \<open>/a/bc\<close> starts with \<open>/a/\<close>, it is the child \<open>bc\<close> of
  \<open>/a\<close>, and invalidating \<open>/a\<close> removes it with \<open>/a\<close> and \<open>/a/b\<close>.
\<close>

theorem invalidate_example_counterexample:
  "mapKeys (invalidateLoadedFolders ''/a''
      [(''/a'', []), (''/a/b'', []), (''/a/bc'', []), (''/x'', [])]) = [''/x''] \<and>
   \<not> mapHas (invalidateLoadedFolders ''/a''
      [(''/a'', []), (''/a/b'', []), (''/a/bc'', []), (''/x'', [])]) ''/a/bc''"
  by (simp add: invalidate_as_filter normalizePath_def trimSlashes_def isSlash_def startsWith_def
        mapKeys_def mapHas_def)

lemma set_keys_filter:
  "set (map fst (filter (\<lambda>kv. Q (fst kv)) c)) = {k \<in> set (map fst c). Q k}"
  by (induction c) auto

lemma Collect_mem_insert:
  "{k \<in> insert a A. P k} = (if P a then insert a {k \<in> A. P k} else {k \<in> A. P k})"
  by auto

text \<open>
  Claim C2, as the code has it. From a cache with exactly the keys \<open>/a\<close>, \<open>/a/b\<close>,
  \<open>/a/bc\<close> and \<open>/x\<close>, invalidating \<open>/a\<close> leaves exactly \<open>/x\<close>. A key that shares a string
  prefix with \<open>/a\<close> but no path segment is kept: from the keys \<open>/a\<close>, \<open>/a/b\<close>, \<open>/ab\<close> and
  \<open>/x\<close>, invalidating \<open>/a\<close> leaves \<open>/ab\<close> and \<open>/x\<close>.
\<close>

theorem invalidate_example:
  "(set (mapKeys cache) = {''/a'', ''/a/b'', ''/a/bc'', ''/x''} \<longrightarrow>
      set (mapKeys (invalidateLoadedFolders ''/a'' cache)) = {''/x''}) \<and>
   (set (mapKeys cache) = {''/a'', ''/a/b'', ''/ab'', ''/x''} \<longrightarrow>
      set (mapKeys (invalidateLoadedFolders ''/a'' cache)) = {''/ab'', ''/x''})"
proof -
  have n: "normalizePath ''/a'' = ''/a''"
    by (simp add: normalizePath_def trimSlashes_def isSlash_def startsWith_def)
  have k: "set (mapKeys (invalidateLoadedFolders ''/a'' cache)) =
        {k \<in> set (mapKeys cache). \<not> (k = ''/a'' \<or> startsWith k ''/a/'')}"
    unfolding invalidate_as_filter n mapKeys_def
    using set_keys_filter[of "\<lambda>k. \<not> (k = ''/a'' \<or> startsWith k ''/a/'')" cache] by simp
  show ?thesis
  proof (intro conjI impI)
    assume h: "set (mapKeys cache) = {''/a'', ''/a/b'', ''/a/bc'', ''/x''}"
    show "set (mapKeys (invalidateLoadedFolders ''/a'' cache)) = {''/x''}"
      unfolding k h by (simp only: Collect_mem_insert) (simp add: startsWith_def)
  next
    assume h: "set (mapKeys cache) = {''/a'', ''/a/b'', ''/ab'', ''/x''}"
    show "set (mapKeys (invalidateLoadedFolders ''/a'' cache)) = {''/ab'', ''/x''}"
      unfolding k h by (simp only: Collect_mem_insert) (simp add: startsWith_def)
  qed
qed

text \<open>The theorem at a cache with the four keys of the first case.\<close>

theorem invalidate_example_witness:
  "set (mapKeys [(''/a'', []), (''/a/b'', []), (''/a/bc'', []), (''/x'', [])]) = {''/a'', ''/a/b'', ''/a/bc'', ''/x''} \<and>
   set (mapKeys (invalidateLoadedFolders ''/a'' [(''/a'', []), (''/a/b'', []), (''/a/bc'', []), (''/x'', [])])) = {''/x''}"
  using invalidate_example[of "[(''/a'', []), (''/a/b'', []), (''/a/bc'', []), (''/x'', [])]"]
  by (simp add: mapKeys_def)

section \<open>The rename rewrite\<close>

lemma jsReplace_prefix:
  "prefix pat s \<Longrightarrow>
     jsReplace s pat r = getSubstitution pat [] (drop (length pat) s) r @ drop (length pat) s"
  by (cases s) (auto simp: jsReplace_def)

lemma getSubstitution_plain: "CHR ''$'' \<notin> set r \<Longrightarrow> getSubstitution m f b r = r"
  by (induction m f b r rule: getSubstitution.induct) auto

lemma jsReplace_plain:
  "startsWith p (oldPath @ ''/'') \<Longrightarrow> CHR ''$'' \<notin> set newPath \<Longrightarrow>
     jsReplace p oldPath newPath = newPath @ drop (length oldPath) p"
proof -
  assume a: "startsWith p (oldPath @ ''/'')" and b: "CHR ''$'' \<notin> set newPath"
  from a have "prefix oldPath p" by (auto simp: startsWith_def prefix_def)
  then show ?thesis by (simp add: jsReplace_prefix getSubstitution_plain[OF b])
qed

lemma renamePath_plain:
  "CHR ''$'' \<notin> set newPath \<Longrightarrow> renamePath oldPath newPath p = rewrite_spec oldPath newPath p"
  by (simp add: renamePath_def rewrite_spec_def jsReplace_plain)

lemma mapSet_fresh: "k \<notin> fst ` set m \<Longrightarrow> mapSet m k v = m @ [(k, v)]"
  by (induction m) (auto simp: mapSet_def)

lemma fold_mapSet_fresh:
  "distinct (map fst acc @ map (\<lambda>kv. fst (h kv)) xs) \<Longrightarrow>
     fold (\<lambda>kv m. mapSet m (fst (h kv)) (snd (h kv))) xs acc = acc @ map h xs"
proof (induction xs arbitrary: acc)
  case Nil
  show ?case by simp
next
  case (Cons x xs)
  from Cons.prems have fresh: "fst (h x) \<notin> fst ` set acc" by auto
  from Cons.prems have "distinct (map fst (acc @ [h x]) @ map (\<lambda>kv. fst (h kv)) xs)" by auto
  then have "fold (\<lambda>kv m. mapSet m (fst (h kv)) (snd (h kv))) xs (acc @ [h x]) = (acc @ [h x]) @ map h xs"
    by (rule Cons.IH)
  then show ?case by (simp add: mapSet_fresh[OF fresh])
qed

lemma renameOpenFiles_fold:
  "renameOpenFiles oldPath newPath newName files =
     fold (\<lambda>kv m. mapSet m (fst (renameOpenFile oldPath newPath newName kv))
                             (snd (renameOpenFile oldPath newPath newName kv))) files []"
  unfolding renameOpenFiles_def
  by (rule arg_cong[where f="\<lambda>f. fold f files []"])
     (auto simp: fun_eq_iff renameOpenFile_def Let_def)

text \<open>
  Where the new path has no dollar sign and no two keys are rewritten to the same key,
  the loop over the open files is the rewrite of the specification applied to every
  entry: keys and \<open>path\<close> fields rewritten, the name changed for the exact match only,
  the other entries as they were, in their order.
\<close>

lemma renameOpenFiles_rewrite:
  assumes nd: "CHR ''$'' \<notin> set newPath"
      and dist: "distinct (map (rewrite_spec oldPath newPath) (mapKeys files))"
  shows "renameOpenFiles oldPath newPath newName files =
     map (\<lambda>kv. (rewrite_spec oldPath newPath (fst kv),
                 if fst kv = oldPath then (snd kv)\<lparr>f_path := newPath, f_name := newName\<rparr>
                 else if startsWith (fst kv) (oldPath @ ''/'')
                   then (snd kv)\<lparr>f_path := rewrite_spec oldPath newPath (fst kv)\<rparr>
                 else snd kv)) files"
proof -
  let ?h = "renameOpenFile oldPath newPath newName"
  have key: "fst (?h kv) = rewrite_spec oldPath newPath (fst kv)" for kv
    by (simp add: renameOpenFile_def rewrite_spec_def jsReplace_plain[OF _ nd])
  have "map (\<lambda>kv. fst (?h kv)) files = map (rewrite_spec oldPath newPath) (mapKeys files)"
    by (simp add: key mapKeys_def)
  with dist have "distinct (map fst [] @ map (\<lambda>kv. fst (?h kv)) files)" by simp
  then have "renameOpenFiles oldPath newPath newName files = [] @ map ?h files"
    unfolding renameOpenFiles_fold by (rule fold_mapSet_fresh)
  also have "map ?h files = map (\<lambda>kv. (rewrite_spec oldPath newPath (fst kv),
                 if fst kv = oldPath then (snd kv)\<lparr>f_path := newPath, f_name := newName\<rparr>
                 else if startsWith (fst kv) (oldPath @ ''/'')
                   then (snd kv)\<lparr>f_path := rewrite_spec oldPath newPath (fst kv)\<rparr>
                 else snd kv)) files"
    by (rule map_cong[OF refl])
       (auto simp: renameOpenFile_def rewrite_spec_def jsReplace_plain[OF _ nd])
  finally show ?thesis by simp
qed

text \<open>
  Claim C7 at a rename of the folder \<open>/docs\<close> to \<open>a$$b\<close>, for which the server answers
  the new path \<open>/a$$b\<close>, with the file \<open>/docs/readme.txt\<close> open in a tab: the key and
  the \<open>path\<close> field of the tab become \<open>/a$b/readme.txt\<close>, which is not under the new
  path.
\<close>

theorem renameOpenFiles_dollar:
  "serverNewPath ''/docs'' ''a$$b'' = ''/a$$b'' \<and>
   renameOpenFiles ''/docs'' ''/a$$b'' ''a$$b''
     [(''/docs/readme.txt'',
       \<lparr>f_name = ''readme.txt'', f_content = ''hello'', f_description = [],
        f_path = ''/docs/readme.txt''\<rparr>)]
   = [(''/a$b/readme.txt'',
       \<lparr>f_name = ''readme.txt'', f_content = ''hello'', f_description = [],
        f_path = ''/a$b/readme.txt''\<rparr>)]"
  by (simp add: serverNewPath_def renameOpenFiles_def startsWith_def jsReplace_def mapSet_def Let_def)

text \<open>The example of the specification: \<open>/docs\<close> renamed to \<open>/documents\<close>.\<close>

lemma renameOpenFiles_docs_example:
  "renameOpenFiles ''/docs'' ''/documents'' ''documents''
     [(''/docs/readme.txt'', a), (''/docs/sub/notes.txt'', b), (''/other.txt'', c)]
   = [(''/documents/readme.txt'', a\<lparr>f_path := ''/documents/readme.txt''\<rparr>),
      (''/documents/sub/notes.txt'', b\<lparr>f_path := ''/documents/sub/notes.txt''\<rparr>),
      (''/other.txt'', c)]"
  by (simp add: renameOpenFiles_def startsWith_def jsReplace_def mapSet_def Let_def)


section \<open>Descriptions across a rename on the server\<close>

lemma splitSlash_no_slash: "seg \<in> set (splitSlash s) \<Longrightarrow> slash \<notin> set seg"
proof (induction s arbitrary: seg)
  case Nil
  then show ?case by simp
next
  case (Cons c cs)
  obtain x xs where sp: "splitSlash cs = x # xs"
    using splitSlash_not_Nil[of cs] by (cases "splitSlash cs") auto
  with Cons show ?case by (auto split: if_splits)
qed

lemma length_splitSlash: "length (splitSlash s) = Suc (count_list s slash)"
proof (induction s)
  case Nil
  show ?case by simp
next
  case (Cons c cs)
  obtain x xs where sp: "splitSlash cs = x # xs"
    using splitSlash_not_Nil[of cs] by (cases "splitSlash cs") auto
  with Cons show ?case by auto
qed

lemma count_joinSlash:
  "segs \<noteq> [] \<Longrightarrow> (\<forall>seg\<in>set segs. slash \<notin> set seg) \<Longrightarrow>
     Suc (count_list (joinSlash segs) slash) = length segs"
proof (induction segs rule: joinSlash.induct)
  case 1
  then show ?case by simp
next
  case (2 seg)
  then show ?case by (simp add: count_list_0_iff)
next
  case (3 seg v va)
  then show ?case by (simp add: count_list_0_iff)
qed

lemma count_serverNewPath:
  assumes "slash \<notin> set newName"
  shows "count_list (serverNewPath oldPath newName) slash = count_list oldPath slash"
proof -
  let ?nodes = "splitSlash oldPath"
  let ?nodes' = "?nodes[length ?nodes - 1 := newName]"
  have ne: "?nodes' \<noteq> []" using splitSlash_not_Nil[of oldPath] by simp
  have "\<forall>seg\<in>set ?nodes'. slash \<notin> set seg"
  proof
    fix seg assume "seg \<in> set ?nodes'"
    then have "seg \<in> insert newName (set ?nodes)" using set_update_subset_insert by fastforce
    with assms show "slash \<notin> set seg" using splitSlash_no_slash by auto
  qed
  with ne have "Suc (count_list (joinSlash ?nodes') slash) = length ?nodes'"
    by (rule count_joinSlash)
  then show ?thesis by (simp add: serverNewPath_def Let_def length_splitSlash)
qed

lemma serverNewPath_not_descendant:
  assumes "slash \<notin> set newName"
  shows "serverNewPath oldPath newName \<noteq> oldPath @ ''/'' @ rest"
proof
  assume "serverNewPath oldPath newName = oldPath @ ''/'' @ rest"
  then have "count_list (serverNewPath oldPath newName) slash = count_list (oldPath @ ''/'' @ rest) slash"
    by simp
  then show False by (simp add: count_serverNewPath[OF assms])
qed

lemma serverNewPath_descendant_not_old:
  assumes "slash \<notin> set newName"
  shows "serverNewPath oldPath newName @ ''/'' @ rest \<noteq> oldPath"
proof
  assume "serverNewPath oldPath newName @ ''/'' @ rest = oldPath"
  then have "count_list (serverNewPath oldPath newName @ ''/'' @ rest) slash = count_list oldPath slash"
    by simp
  then show False by (simp add: count_serverNewPath[OF assms])
qed

text \<open>
  Claim C10 as it is stated does not hold in every store the endpoints can reach. A
  description \<open>A\<close> is saved for \<open>/a/x.txt\<close> and the folder \<open>/a\<close> is renamed to \<open>b\<close>;
  the text stays under \<open>/a/x.txt\<close>. A description \<open>B\<close> is saved for \<open>/b/x.txt\<close> and
  the folder \<open>/b\<close> is renamed back to \<open>a\<close>. The file \<open>/b/x.txt\<close> had a description
  when its folder was renamed, and the request for its new path \<open>/a/x.txt\<close> is not
  answered with the empty text: it is answered with the text \<open>A\<close> that the first
  rename left behind.
\<close>

theorem rename_keeps_descendant_descriptions_counterexample:
  "apiGetDescription ''/b/x.txt''
     (apiSetDescription ''/b/x.txt'' ''B''
        (fst (apiRename (\<lambda>fs a b. Some fs) ''/a'' ''b''
           (apiSetDescription ''/a/x.txt'' ''A'' \<lparr>fileSystem = (), descriptionsFile = None\<rparr>))))
     = ''B'' \<and>
   snd (apiRename (\<lambda>fs a b. Some fs) ''/b'' ''a''
     (apiSetDescription ''/b/x.txt'' ''B''
        (fst (apiRename (\<lambda>fs a b. Some fs) ''/a'' ''b''
           (apiSetDescription ''/a/x.txt'' ''A'' \<lparr>fileSystem = (), descriptionsFile = None\<rparr>)))))
     = Some ''/a'' \<and>
   apiGetDescription ''/a/x.txt''
     (fst (apiRename (\<lambda>fs a b. Some fs) ''/b'' ''a''
        (apiSetDescription ''/b/x.txt'' ''B''
           (fst (apiRename (\<lambda>fs a b. Some fs) ''/a'' ''b''
              (apiSetDescription ''/a/x.txt'' ''A'' \<lparr>fileSystem = (), descriptionsFile = None\<rparr>))))))
     = ''A''"
  by (simp add: apiRename_def apiSetDescription_def apiGetDescription_def readDescriptions_def
        truthy_def serverNewPath_def Let_def)

text \<open>
  Claim C10, amended. The rename endpoint moves the description stored under exactly
  the old path to the new path and touches no other key. So for a path under the
  renamed folder that has a description, where the new name is a plain name, the text
  stays under the old path of the descendant after the rename, and the endpoint writes
  nothing under the new path of the descendant: asking for the description of that
  new path gives what was stored there before the rename, which is the empty text
  when nothing was stored there.
\<close>

theorem rename_keeps_descendant_descriptions:
  assumes ok: "fsRename (fileSystem sv) oldPath newName = Some fs'"
      and name: "slash \<notin> set newName"
      and stored: "readDescriptions sv (oldPath @ ''/'' @ rest) = Some text" "text \<noteq> []"
  shows "snd (apiRename fsRename oldPath newName sv) = Some (serverNewPath oldPath newName) \<and>
         apiGetDescription (oldPath @ ''/'' @ rest) (fst (apiRename fsRename oldPath newName sv)) = text \<and>
         apiGetDescription (serverNewPath oldPath newName @ ''/'' @ rest)
            (fst (apiRename fsRename oldPath newName sv))
           = apiGetDescription (serverNewPath oldPath newName @ ''/'' @ rest) sv \<and>
         (readDescriptions sv (serverNewPath oldPath newName @ ''/'' @ rest) = None \<longrightarrow>
            apiGetDescription (serverNewPath oldPath newName @ ''/'' @ rest)
              (fst (apiRename fsRename oldPath newName sv)) = []) \<and>
         (\<forall>k. k \<noteq> oldPath \<and> k \<noteq> serverNewPath oldPath newName \<longrightarrow>
            readDescriptions (fst (apiRename fsRename oldPath newName sv)) k = readDescriptions sv k) \<and>
         (truthy (readDescriptions sv oldPath) \<longrightarrow>
            readDescriptions (fst (apiRename fsRename oldPath newName sv)) (serverNewPath oldPath newName)
              = (if serverNewPath oldPath newName = oldPath then None else readDescriptions sv oldPath) \<and>
            readDescriptions (fst (apiRename fsRename oldPath newName sv)) oldPath = None)"
proof -
  let ?new = "serverNewPath oldPath newName"
  let ?d = "oldPath @ ''/'' @ rest"
  let ?d' = "?new @ ''/'' @ rest"
  let ?sv' = "fst (apiRename fsRename oldPath newName sv)"
  have d1: "?d \<noteq> oldPath" by simp
  have d2: "?d \<noteq> ?new" using serverNewPath_not_descendant[OF name] by metis
  have d3: "?d' \<noteq> ?new" by simp
  have d4: "?d' \<noteq> oldPath" using serverNewPath_descendant_not_old[OF name] by metis
  have rd: "readDescriptions ?sv' =
     (if truthy (readDescriptions sv oldPath)
      then ((readDescriptions sv)(?new := readDescriptions sv oldPath))(oldPath := None)
      else readDescriptions sv)"
    using ok by (simp add: apiRename_def Let_def readDescriptions_def)
  have r: "snd (apiRename fsRename oldPath newName sv) = Some ?new"
    using ok by (simp add: apiRename_def Let_def)
  have k: "readDescriptions ?sv' ?d = Some text"
    using d1 d2 stored by (simp add: rd)
  have k': "readDescriptions ?sv' ?d' = readDescriptions sv ?d'"
    using d3 d4 by (simp add: rd)
  have others: "\<forall>k. k \<noteq> oldPath \<and> k \<noteq> ?new \<longrightarrow> readDescriptions ?sv' k = readDescriptions sv k"
    by (simp add: rd)
  have exact: "truthy (readDescriptions sv oldPath) \<longrightarrow>
      readDescriptions ?sv' ?new = (if ?new = oldPath then None else readDescriptions sv oldPath) \<and>
      readDescriptions ?sv' oldPath = None"
    by (simp add: rd)
  from k stored(2) have g: "apiGetDescription ?d ?sv' = text"
    by (simp add: apiGetDescription_def Let_def truthy_def)
  from k' have g': "apiGetDescription ?d' ?sv' = apiGetDescription ?d' sv"
    by (simp add: apiGetDescription_def Let_def)
  have g'': "readDescriptions sv ?d' = None \<longrightarrow> apiGetDescription ?d' ?sv' = []"
    unfolding g' by (simp add: apiGetDescription_def Let_def truthy_def)
  show ?thesis using r g g' g'' others exact by blast
qed

text \<open>
  The theorem at the rename of \<open>/docs\<close> to \<open>documents\<close> with descriptions stored for
  \<open>/docs\<close> and \<open>/docs/a.txt\<close>.
\<close>

theorem rename_keeps_descendant_descriptions_witness:
  "apiGetDescription ''/docs/a.txt''
     (fst (apiRename (\<lambda>fs a b. Some fs) ''/docs'' ''documents''
        \<lparr>fileSystem = (), descriptionsFile = Some [''/docs'' \<mapsto> ''d'', ''/docs/a.txt'' \<mapsto> ''hello'']\<rparr>))
     = ''hello'' \<and>
   apiGetDescription ''/documents/a.txt''
     (fst (apiRename (\<lambda>fs a b. Some fs) ''/docs'' ''documents''
        \<lparr>fileSystem = (), descriptionsFile = Some [''/docs'' \<mapsto> ''d'', ''/docs/a.txt'' \<mapsto> ''hello'']\<rparr>))
     = [] \<and>
   apiGetDescription ''/documents''
     (fst (apiRename (\<lambda>fs a b. Some fs) ''/docs'' ''documents''
        \<lparr>fileSystem = (), descriptionsFile = Some [''/docs'' \<mapsto> ''d'', ''/docs/a.txt'' \<mapsto> ''hello'']\<rparr>))
     = ''d''"
  using rename_keeps_descendant_descriptions[of "\<lambda>fs a b. Some fs"
      "\<lparr>fileSystem = (), descriptionsFile = Some [''/docs'' \<mapsto> ''d'', ''/docs/a.txt'' \<mapsto> ''hello'']\<rparr>"
      "''/docs''" "''documents''" "()" "''a.txt''" "''hello''"]
  by (simp add: apiRename_def apiGetDescription_def readDescriptions_def truthy_def
        serverNewPath_def Let_def)


section \<open>A failed rename\<close>

text \<open>
  Claim C8. If the rename request fails, \<open>confirmRename\<close> leaves the state of the client
  exactly as it was: the folder cache, the expanded set, the open files, the active
  tab, the selected item and the descriptions, and the document as well. Every write of
  the function stands after the awaited request.
\<close>

theorem rename_failure_keeps_state:
  assumes "renameData st = Some rd" and "putRename rem (s_path rd) newName = None"
  shows "confirmRename ui rem newName st = st"
  using assms by (simp add: confirmRename_def)

text \<open>The theorem in the scenario, whose server refuses the rename of \<open>/a\<close>.\<close>

theorem rename_failure_keeps_state_witness:
  "renameData scenarioState = Some \<lparr>s_path = ''/a'', s_type = Folder\<rparr> \<and>
   putRename scenarioRemote ''/a'' ''z'' = None \<and>
   confirmRename scenarioUi scenarioRemote ''z'' scenarioState = scenarioState"
  using rename_failure_keeps_state[of scenarioState "\<lparr>s_path = ''/a'', s_type = Folder\<rparr>"
          scenarioRemote "''z''" scenarioUi]
  by (simp add: scenarioState_def scenarioRemote_def)



section \<open>What the loads and the restore leave alone\<close>

lemma folderCache_domApply [simp]: "folderCache (domApply ui w st) = folderCache st"
  by (simp add: domApply_def)

lemma dom_free_fields [simp]:
  "descriptions (domApply ui w st) = descriptions st"
  "openFiles (domApply ui w st) = openFiles st"
  "selectedItem (domApply ui w st) = selectedItem st"
  "expandedFolders (domApply ui w st) = expandedFolders st"
  "trace (domApply ui w st) = trace st"
  by (simp_all add: domApply_def)

lemma folderCache_beginLoad [simp]: "folderCache (beginLoad ui p st) = folderCache st"
  by (simp add: beginLoad_def)

lemma folderCache_spawnLoad [simp]: "folderCache (spawnLoad ui p l st) = folderCache st"
  by (simp add: spawnLoad_def)

lemma lookupHeader_Found: "lookupHeader ui d p = Found h \<longleftrightarrow> queryHeader ui d p = Some h"
  by (simp add: lookupHeader_def split: option.splits)

lemma lookupElement_Found: "lookupElement ui d p = Found el \<longleftrightarrow> queryElement ui d p = Some el"
  by (simp add: lookupElement_def split: option.splits)

lemma stateOf_andThen:
  "stateOf (andThen x f) = (case x of Done s \<Rightarrow> stateOf (f s) | Thrown s \<Rightarrow> s)"
  by (cases x) simp_all

lemma stateOf_caught [simp]:
  "folderCache (case x of Done s \<Rightarrow> domApply ui w s | Thrown s \<Rightarrow> s) = folderCache (stateOf x)"
  "descriptions (case x of Done s \<Rightarrow> domApply ui w s | Thrown s \<Rightarrow> s) = descriptions (stateOf x)"
  "openFiles (case x of Done s \<Rightarrow> domApply ui w s | Thrown s \<Rightarrow> s) = openFiles (stateOf x)"
  "pending (case x of Done s \<Rightarrow> domApply ui w s | Thrown s \<Rightarrow> s) = pending (stateOf x)"
  by (cases x; simp add: domApply_def)+

lemma spawnLoads_keeps:
  "folderCache (stateOf (spawnLoads ui paths st)) = folderCache st \<and>
   descriptions (stateOf (spawnLoads ui paths st)) = descriptions st \<and>
   openFiles (stateOf (spawnLoads ui paths st)) = openFiles st"
  by (induction paths arbitrary: st)
     (auto simp: spawnLoad_def beginLoad_def split: lookup.splits)

lemma restoreExpandedChildren_keeps:
  "folderCache (stateOf (restoreExpandedChildren ui p st)) = folderCache st \<and>
   descriptions (stateOf (restoreExpandedChildren ui p st)) = descriptions st \<and>
   openFiles (stateOf (restoreExpandedChildren ui p st)) = openFiles st"
proof -
  let ?paths = "sort_key (\<lambda>q. length (splitSlash q))
      (filter (\<lambda>q. startsWith q (if normalizePath p \<noteq> ''/'' then normalizePath p @ ''/'' else ''/'')
                    \<and> q \<noteq> normalizePath p) (expandedFolders st))"
  note k = spawnLoads_keeps[of ui ?paths st]
  show ?thesis
    unfolding restoreExpandedChildren_def Let_def stateOf_andThen
    using k by (cases "spawnLoads ui ?paths st") (auto split: option.splits lookup.splits)
qed

lemma loadFolderChildren_cache:
  "folderCache (loadFolderChildren ui rem p l st) =
     (if mapHas (folderCache st) (normalizePath p) then folderCache st
      else case getTree rem (normalizePath p) of
             None \<Rightarrow> folderCache st
           | Some folder \<Rightarrow>
               mapSet (folderCache st) (normalizePath p)
                 (normalizeChildren (case t_children folder of None \<Rightarrow> [] | Some cs \<Rightarrow> cs)))"
  by (simp add: loadFolderChildren_def finishLoad_def Let_def split: option.splits)

lemma loadFolderChildren_keeps:
  "descriptions (loadFolderChildren ui rem p l st) = descriptions st \<and>
   openFiles (loadFolderChildren ui rem p l st) = openFiles st"
  by (simp add: loadFolderChildren_def finishLoad_def beginLoad_def Let_def split: option.splits)

lemma pending_domApply [simp]: "pending (domApply ui w st) = pending st"
  by (simp add: domApply_def)

lemma pending_loadFolderChildren [simp]:
  "pending (loadFolderChildren ui rem p l st) = pending st"
  by (simp add: loadFolderChildren_def finishLoad_def beginLoad_def Let_def split: option.splits)

lemma expandedFolders_loadFolderChildren [simp]:
  "expandedFolders (loadFolderChildren ui rem p l st) = expandedFolders st"
  by (simp add: loadFolderChildren_def finishLoad_def beginLoad_def Let_def split: option.splits)

lemma restoreExpandedChildren_nothing_expanded:
  assumes "filter (\<lambda>p. startsWith p (if normalizePath parent \<noteq> ''/'' then normalizePath parent @ ''/'' else ''/'')
                        \<and> p \<noteq> normalizePath parent) (expandedFolders st) = []"
  shows "pending (stateOf (restoreExpandedChildren ui parent st)) = pending st"
  unfolding restoreExpandedChildren_def Let_def assms
  by (simp split: option.splits lookup.splits)

section \<open>Saving a description\<close>

lemma isDescendant_refl: "isDescendant p p"
  by (simp add: isDescendant_def)

lemma invalidated_has_not: "\<not> mapHas (invalidateLoadedFolders p c) (normalizePath p)"
proof -
  have "invalidateLoadedFolders p c = filter (\<lambda>kv. \<not> isDescendant (normalizePath p) (fst kv)) c"
    by (rule invalidate_filter_isDescendant)
  then show ?thesis by (auto simp: mapHas_def isDescendant_refl)
qed

lemma saveDescription_effect:
  assumes cf: "currentFile st = Some cf" "cf \<noteq> []"
      and ok: "postDescription rem cf description"
  shows
    "descriptions (saveDescription ui rem description st) = (descriptions st)(cf \<mapsto> description) \<and>
     mapGet (openFiles (saveDescription ui rem description st)) cf =
       map_option (\<lambda>fileData. fileData\<lparr>f_description := description\<rparr>) (mapGet (openFiles st) cf) \<and>
     folderCache (saveDescription ui rem description st) =
       (if queryElement ui (dom st) cf \<noteq> None \<and> queryHeader ui (dom st) (descriptionParent cf) \<noteq> None
        then filter (\<lambda>kv. \<not> isDescendant (normalizePath (descriptionParent cf)) (fst kv)) (folderCache st)
             @ (case getTree rem (normalizePath (descriptionParent cf)) of
                  None \<Rightarrow> []
                | Some folder \<Rightarrow>
                    [(normalizePath (descriptionParent cf),
                      normalizeChildren (case t_children folder of None \<Rightarrow> [] | Some cs \<Rightarrow> cs))])
        else folderCache st)"
proof -
  let ?P = "descriptionParent cf"
  let ?st1 = "st\<lparr>descriptions := (descriptions st)(cf \<mapsto> description)\<rparr>"
  let ?st2 = "case mapGet (openFiles ?st1) cf of
                None \<Rightarrow> ?st1
              | Some fileData \<Rightarrow>
                  ?st1\<lparr>openFiles := mapSet (openFiles ?st1) cf (fileData\<lparr>f_description := description\<rparr>)\<rparr>"
  let ?inv = "?st2\<lparr>folderCache := invalidateLoadedFolders ?P (folderCache ?st2)\<rparr>"
  let ?o3 = "case lookupElement ui (dom ?st2) cf of
               SyntaxError \<Rightarrow> Thrown ?st2
             | Absent \<Rightarrow> Done ?st2
             | Found fileEl \<Rightarrow>
                 (case lookupHeader ui (dom ?st2) ?P of
                    SyntaxError \<Rightarrow> Thrown ?st2
                  | Absent \<Rightarrow> Done ?st2
                  | Found h \<Rightarrow>
                      restoreExpandedChildren ui ?P (loadFolderChildren ui rem ?P (h_level h) ?inv))"
  have sd: "saveDescription ui rem description st =
              (case ?o3 of Done s \<Rightarrow> domApply ui AlertSaved s | Thrown s \<Rightarrow> s)"
    using cf ok by (simp add: saveDescription_def Let_def)
  have st2: "descriptions ?st2 = (descriptions st)(cf \<mapsto> description)"
            "folderCache ?st2 = folderCache st" "dom ?st2 = dom st"
            "mapGet (openFiles ?st2) cf =
               map_option (\<lambda>fileData. fileData\<lparr>f_description := description\<rparr>) (mapGet (openFiles st) cf)"
    by (auto simp: mapGet_def mapSet_def update_conv' split: option.splits)
  have inv: "folderCache ?inv = filter (\<lambda>kv. \<not> isDescendant (normalizePath ?P) (fst kv)) (folderCache st)"
    using invalidate_filter_isDescendant[of ?P "folderCache st"] st2(2) by simp
  have nh: "\<not> mapHas (folderCache ?inv) (normalizePath ?P)"
    using invalidated_has_not[of ?P "folderCache ?st2"] by simp
  then have fresh: "normalizePath ?P \<notin> fst ` set (folderCache ?inv)"
    by (simp add: mapHas_def)
  have load: "folderCache (loadFolderChildren ui rem ?P l ?inv) =
      filter (\<lambda>kv. \<not> isDescendant (normalizePath ?P) (fst kv)) (folderCache st)
       @ (case getTree rem (normalizePath ?P) of
            None \<Rightarrow> []
          | Some folder \<Rightarrow>
              [(normalizePath ?P,
                normalizeChildren (case t_children folder of None \<Rightarrow> [] | Some cs \<Rightarrow> cs))])" for l
    unfolding loadFolderChildren_cache using nh mapSet_fresh[OF fresh] inv
    by (simp split: option.splits)
  show ?thesis
  proof (cases "queryElement ui (dom st) cf \<noteq> None \<and> queryHeader ui (dom st) ?P \<noteq> None")
    case True
    then obtain el h where q: "queryElement ui (dom st) cf = Some el" "queryHeader ui (dom st) ?P = Some h"
      by auto
    have q': "lookupElement ui (dom ?st2) cf = Found el" "lookupHeader ui (dom ?st2) ?P = Found h"
      unfolding lookupElement_Found lookupHeader_Found st2(3) by (rule q)+
    have o3: "?o3 = restoreExpandedChildren ui ?P (loadFolderChildren ui rem ?P (h_level h) ?inv)"
      by (simp only: q' lookup.case)
    have "descriptions (stateOf ?o3) = descriptions ?st2" "openFiles (stateOf ?o3) = openFiles ?st2"
         "folderCache (stateOf ?o3) = folderCache (loadFolderChildren ui rem ?P (h_level h) ?inv)"
      unfolding o3 by (simp_all add: restoreExpandedChildren_keeps loadFolderChildren_keeps)
    with True show ?thesis unfolding sd using st2(1,4) load by simp
  next
    case False
    then have "lookupElement ui (dom ?st2) cf \<in> {Absent, SyntaxError} \<or>
               lookupHeader ui (dom ?st2) ?P \<in> {Absent, SyntaxError}"
      unfolding st2(3) by (auto simp: lookupElement_def lookupHeader_def)
    then have e: "stateOf ?o3 = ?st2"
      by (cases "lookupElement ui (dom ?st2) cf"; cases "lookupHeader ui (dom ?st2) ?P")
         (simp_all only: lookup.case stateOf.simps insert_iff empty_iff lookup.distinct simp_thms)
    have f: "descriptions (stateOf ?o3) = descriptions ?st2" "openFiles (stateOf ?o3) = openFiles ?st2"
            "folderCache (stateOf ?o3) = folderCache ?st2"
      by (simp_all only: e)
    have c: "(queryElement ui (dom st) cf \<noteq> None \<and> queryHeader ui (dom st) ?P \<noteq> None) = False"
      using False by simp
    show ?thesis unfolding sd stateOf_caught f c if_False using st2(1,2,4) by simp
  qed
qed

lemma saveDescription_scenario_pending:
  "pending (saveDescription scenarioUi scenarioRemote ''note'' scenarioState) = []"
proof -
  have n: "normalizePath ''/a'' = ''/a''"
    by (simp add: normalizePath_def trimSlashes_def isSlash_def startsWith_def)
  have p: "descriptionParent ''/a/f.txt'' = ''/a''"
    by (simp add: descriptionParent_def)
  have cf: "currentFile scenarioState = Some ''/a/f.txt''" "pending scenarioState = []"
           "expandedFolders scenarioState = [''/a'']"
    by (simp_all add: scenarioState_def)
  have ok: "postDescription scenarioRemote ''/a/f.txt'' ''note''" by (simp add: scenarioRemote_def)
  have r: "pending (stateOf (restoreExpandedChildren scenarioUi ''/a'' s)) = pending s"
    if "expandedFolders s = [''/a'']" for s
    by (rule restoreExpandedChildren_nothing_expanded) (simp add: n that startsWith_def)
  show ?thesis
    by (simp add: saveDescription_def cf ok p Let_def r split: option.splits lookup.splits)
qed

text \<open>
  Claim C4 as it is written fails. In the scenario the cache holds \<open>/\<close>, \<open>/a\<close> and
  \<open>/a/b\<close>; saving a description for \<open>/a/f.txt\<close> invalidates \<open>/a\<close> and \<open>/a/b\<close> and
  fetches \<open>/a\<close> again, so the key \<open>/a/b\<close> is gone afterwards, and no load is pending
  that would bring it back.
\<close>

theorem saveDescription_cache_counterexample:
  "mapKeys (folderCache scenarioState) = [''/'', ''/a'', ''/a/b''] \<and>
   mapKeys (folderCache (saveDescription scenarioUi scenarioRemote ''note'' scenarioState))
     = [''/'', ''/a''] \<and>
   pending (saveDescription scenarioUi scenarioRemote ''note'' scenarioState) = []"
proof -
  have n: "normalizePath ''/a'' = ''/a''"
    by (simp add: normalizePath_def trimSlashes_def isSlash_def startsWith_def)
  have p: "descriptionParent ''/a/f.txt'' = ''/a''"
    by (simp add: descriptionParent_def)
  have cf: "currentFile scenarioState = Some ''/a/f.txt''" by (simp add: scenarioState_def)
  have ok: "postDescription scenarioRemote ''/a/f.txt'' ''note''" by (simp add: scenarioRemote_def)
  have ne: "''/a/f.txt'' \<noteq> []" by simp
  note fc = saveDescription_effect[OF cf ne ok, of scenarioUi, unfolded p n,
              THEN conjunct2, THEN conjunct2]
  have q: "queryElement scenarioUi d ''/a/f.txt'' = Some File"
          "queryHeader scenarioUi d ''/a'' = Some \<lparr>h_hasChildren = True, h_level = 1\<rparr>" for d
    by (simp_all add: scenarioUi_def)
  have g: "t_children (the (getTree scenarioRemote ''/a'')) = Some [nodeF, nodeB]"
          "getTree scenarioRemote ''/a'' \<noteq> None"
    by (simp_all add: scenarioRemote_def)
  have c: "folderCache scenarioState = [(''/'', [nodeA]), (''/a'', [nodeF, nodeB]), (''/a/b'', [nodeC])]"
    by (simp add: scenarioState_def)
  have "mapKeys (folderCache (saveDescription scenarioUi scenarioRemote ''note'' scenarioState))
          = [''/'', ''/a'']"
    unfolding fc using g by (auto simp: q c mapKeys_def isDescendant_def startsWith_def)
  then show ?thesis using saveDescription_scenario_pending by (simp add: mapKeys_def c)
qed

lemma map_of_filter_key:
  "Q k \<Longrightarrow> map_of (filter (\<lambda>kv. Q (fst kv)) c) k = map_of c k"
  by (induction c) auto

text \<open>
  Claim C4, as the code has it. After a successful \<open>saveDescription\<close> the local
  description of the file is the new text, and so is the description of its entry
  among the open files if it has one. The folder cache is unchanged unless the element
  of the file and the header of its parent folder are rendered; in that case the keys
  of the cache are the old keys outside the subtree of the parent folder, followed by
  the parent folder itself if its children could be fetched again, and every entry
  outside that subtree is as it was.
\<close>

theorem saveDescription_cache:
  assumes cf: "currentFile st = Some cf" "cf \<noteq> []"
      and ok: "postDescription rem cf description"
  shows
    "descriptions (saveDescription ui rem description st) = (descriptions st)(cf \<mapsto> description) \<and>
     mapGet (openFiles (saveDescription ui rem description st)) cf =
       map_option (\<lambda>fileData. fileData\<lparr>f_description := description\<rparr>) (mapGet (openFiles st) cf) \<and>
     (if queryElement ui (dom st) cf \<noteq> None \<and> queryHeader ui (dom st) (descriptionParent cf) \<noteq> None
      then mapKeys (folderCache (saveDescription ui rem description st)) =
             filter (\<lambda>k. \<not> isDescendant (normalizePath (descriptionParent cf)) k)
               (mapKeys (folderCache st))
             @ (if getTree rem (normalizePath (descriptionParent cf)) = None then []
                else [normalizePath (descriptionParent cf)]) \<and>
           (\<forall>k. \<not> isDescendant (normalizePath (descriptionParent cf)) k \<longrightarrow>
                mapGet (folderCache (saveDescription ui rem description st)) k
                  = mapGet (folderCache st) k)
      else folderCache (saveDescription ui rem description st) = folderCache st)"
proof -
  let ?P = "normalizePath (descriptionParent cf)"
  let ?st' = "saveDescription ui rem description st"
  note eff = saveDescription_effect[OF cf ok, of ui]
  show ?thesis
  proof (cases "queryElement ui (dom st) cf \<noteq> None \<and> queryHeader ui (dom st) (descriptionParent cf) \<noteq> None")
    case False
    with eff show ?thesis by auto
  next
    case True
    with eff have fc: "folderCache ?st' =
        filter (\<lambda>kv. \<not> isDescendant ?P (fst kv)) (folderCache st)
        @ (case getTree rem ?P of
             None \<Rightarrow> []
           | Some folder \<Rightarrow>
               [(?P, normalizeChildren (case t_children folder of None \<Rightarrow> [] | Some cs \<Rightarrow> cs))])"
      by simp
    have keys: "mapKeys (folderCache ?st') =
        filter (\<lambda>k. \<not> isDescendant ?P k) (mapKeys (folderCache st))
        @ (if getTree rem ?P = None then [] else [?P])"
      unfolding fc mapKeys_def
      using map_fst_filter[of "\<lambda>k. \<not> isDescendant ?P k" "folderCache st"]
      by (simp split: option.splits)
    have frame: "mapGet (folderCache ?st') k = mapGet (folderCache st) k"
      if nd: "\<not> isDescendant ?P k" for k
    proof -
      from nd have "k \<noteq> ?P" using isDescendant_refl by metis
      then show ?thesis
        unfolding fc mapGet_def
        using map_of_filter_key[of "\<lambda>k. \<not> isDescendant ?P k" k "folderCache st"] nd
        by (simp add: map_add_def split: option.splits)
    qed
    from True eff keys frame show ?thesis by simp
  qed
qed

text \<open>The theorem in the scenario, for the description \<open>note\<close> of \<open>/a/f.txt\<close>.\<close>

theorem saveDescription_cache_witness:
  "currentFile scenarioState = Some ''/a/f.txt'' \<and>
   postDescription scenarioRemote ''/a/f.txt'' ''note'' \<and>
   descriptions (saveDescription scenarioUi scenarioRemote ''note'' scenarioState) ''/a/f.txt''
     = Some ''note'' \<and>
   map_option f_description
     (mapGet (openFiles (saveDescription scenarioUi scenarioRemote ''note'' scenarioState)) ''/a/f.txt'')
     = Some ''note''"
proof -
  have cf: "currentFile scenarioState = Some ''/a/f.txt''" by (simp add: scenarioState_def)
  have ne: "''/a/f.txt'' \<noteq> []" by simp
  have ok: "postDescription scenarioRemote ''/a/f.txt'' ''note''" by (simp add: scenarioRemote_def)
  have o: "mapGet (openFiles scenarioState) ''/a/f.txt'' =
      Some \<lparr>f_name = ''f.txt'', f_content = ''hello'', f_description = [], f_path = ''/a/f.txt''\<rparr>"
    by (simp add: scenarioState_def mapGet_def)
  from saveDescription_cache[OF cf ne ok, of scenarioUi] cf ok show ?thesis
    by (simp add: o)
qed


section \<open>The order of the reload\<close>

lemma splitSlash_snoc_slash: "splitSlash (s @ [slash]) = splitSlash s @ [[]]"
proof (induction s)
  case Nil
  show ?case by simp
next
  case (Cons c cs)
  obtain x xs where sp: "splitSlash cs = x # xs"
    using splitSlash_not_Nil[of cs] by (cases "splitSlash cs") auto
  with Cons show ?case by auto
qed



lemma segments_Cons_slash: "segments (slash # s) = segments s"
  by (simp add: segments_def)

lemma segments_snoc_slash: "segments (s @ [slash]) = segments s"
  by (simp add: segments_def splitSlash_snoc_slash)

lemma segments_Nil_iff: "segments s = [] \<longleftrightarrow> (\<forall>c\<in>set s. c = slash)"
proof (induction s)
  case Nil
  show ?case by (simp add: segments_def)
next
  case (Cons c cs)
  obtain x xs where sp: "splitSlash cs = x # xs"
    using splitSlash_not_Nil[of cs] by (cases "splitSlash cs") auto
  show ?case
  proof (cases "c = slash")
    case True
    with Cons show ?thesis by (simp add: segments_def)
  next
    case False
    with sp show ?thesis by (simp add: segments_def)
  qed
qed

lemma segments_dropWhile: "segments (dropWhile isSlash p) = segments p"
  by (induction p) (auto simp: isSlash_def segments_Cons_slash)

lemma segments_rev_dropWhile_rev: "segments (rev (dropWhile isSlash (rev q))) = segments q"
proof (induction q rule: rev_induct)
  case Nil
  show ?case by simp
next
  case (snoc x xs)
  then show ?case by (cases "x = slash") (auto simp: isSlash_def segments_snoc_slash)
qed

lemma segments_trimSlashes: "segments (trimSlashes p) = segments p"
  by (simp add: trimSlashes_def segments_rev_dropWhile_rev segments_dropWhile)

lemma segments_normalizePath: "segments (normalizePath p) = segments p"
proof (cases "trimSlashes p = []")
  case True
  then have "segments p = []" by (simp add: trim_Nil_iff segments_Nil_iff)
  moreover have "segments ''/'' = []" by (simp add: segments_def)
  ultimately show ?thesis using True by (simp add: normalizePath_cases)
next
  case False
  then show ?thesis
    by (simp add: normalizePath_cases segments_Cons_slash segments_trimSlashes)
qed

lemma depth_normalizePath: "depth (normalizePath p) = depth p"
  by (simp add: depth_def segments_normalizePath)









lemma reexpandLoop_append:
  "reexpandLoop ui rem (xs @ ys) s = andThen (reexpandLoop ui rem xs s) (reexpandLoop ui rem ys)"
  by (induction xs arbitrary: s) (auto split: outcome.splits)

text \<open>An exception in one iteration ends the loop: no later path is visited.\<close>

lemma reexpandLoop_abort:
  "reexpandLoop ui rem xs s = Done s1 \<Longrightarrow> reexpandStep ui rem p s1 = Thrown s2 \<Longrightarrow>
     reexpandLoop ui rem (xs @ p # ys) s = Thrown s2"
  by (simp add: reexpandLoop_append)






section \<open>The rename on the client\<close>

lemma openFiles_loadFolderChildren [simp]:
  "openFiles (loadFolderChildren ui rem p l st) = openFiles st"
  by (simp add: loadFolderChildren_keeps)

lemma openFiles_restoreExpandedChildren [simp]:
  "openFiles (stateOf (restoreExpandedChildren ui p st)) = openFiles st"
  by (simp add: restoreExpandedChildren_keeps)

lemma openFiles_reexpandStep [simp]:
  "openFiles (stateOf (reexpandStep ui rem p st)) = openFiles st"
  by (simp add: reexpandStep_def Let_def split: lookup.splits)

lemma openFiles_reexpandLoop [simp]:
  "openFiles (stateOf (reexpandLoop ui rem ps st)) = openFiles st"
proof (induction ps arbitrary: st)
  case Nil
  show ?case by simp
next
  case (Cons p ps)
  show ?case
  proof (cases "reexpandStep ui rem p st")
    case (Done s)
    with openFiles_reexpandStep[of ui rem p st] Cons.IH[of s] show ?thesis by simp
  next
    case (Thrown s)
    with openFiles_reexpandStep[of ui rem p st] show ?thesis by simp
  qed
qed

lemma openFiles_ensureAncestorsLoop [simp]:
  "openFiles (stateOf (ensureAncestorsLoop ui rem ps st)) = openFiles st"
  by (induction ps arbitrary: st) (auto simp: Let_def split: lookup.splits)

lemma openFiles_setSelectedItem [simp]:
  "openFiles (stateOf (setSelectedItem ui p ty st)) = openFiles st"
  by (simp add: setSelectedItem_def Let_def)

lemma openFiles_andThen:
  assumes "openFiles (stateOf x) = openFiles st"
      and "\<And>s. openFiles s = openFiles st \<Longrightarrow> openFiles (stateOf (f s)) = openFiles st"
  shows "openFiles (stateOf (andThen x f)) = openFiles st"
  using assms by (cases x) auto

lemma openFiles_restoreSelection [simp]:
  "openFiles (stateOf (restoreSelection ui rem sel st)) = openFiles st"
proof (cases sel)
  case None
  then show ?thesis by (simp add: restoreSelection_def)
next
  case (Some p)
  show ?thesis
  proof (cases "lookupElement ui (dom st) p")
    case Absent
    have "openFiles (stateOf (andThen (ensureAncestorsExpanded ui rem p st)
             (\<lambda>s. case lookupElement ui (dom s) p of
                     SyntaxError \<Rightarrow> Thrown s
                   | Absent \<Rightarrow> Done s
                   | Found ty \<Rightarrow> setSelectedItem ui (Some p) ty s))) = openFiles st"
      by (rule openFiles_andThen)
         (auto simp: ensureAncestorsExpanded_def split: lookup.splits)
    with Some Absent show ?thesis by (simp add: restoreSelection_def)
  qed (simp_all add: Some restoreSelection_def)
qed

lemma openFiles_renderTree [simp]: "openFiles (renderTree ui node st) = openFiles st"
  by (simp add: renderTree_def split: option.splits)

lemma openFiles_loadTreeFinish [simp]:
  "openFiles (stateOf (loadTreeFinish ui rem sel st)) = openFiles st"
  unfolding loadTreeFinish_def
  by (rule openFiles_andThen) auto

lemma openFiles_caught:
  "openFiles (case x of Done s \<Rightarrow> s | Thrown s \<Rightarrow> domApply ui w s) = openFiles (stateOf x)"
  by (cases x) simp_all

lemma openFiles_loadTree [simp]: "openFiles (loadTree ui rem st) = openFiles st"
proof (cases "getTreeRoot rem")
  case None
  then show ?thesis by (simp add: loadTree_def Let_def)
next
  case (Some tree)
  let ?st1 = "st\<lparr>expandedFolders := setOfArray (queryExpanded ui (dom st))\<rparr>"
  have "openFiles (stateOf (andThen (reexpandLoop ui rem (sortByDepth (queryExpanded ui (dom st)))
                                       (loadTreeStart ui tree ?st1))
                              (loadTreeFinish ui rem (prevSelectedOf ?st1)))) = openFiles st"
    by (rule openFiles_andThen) (simp_all add: loadTreeStart_def split: option.splits)
  then show ?thesis unfolding loadTree_def Let_def Some option.case openFiles_caught .
qed

lemma openFiles_refresh [simp]:
  "openFiles (refreshTreeAndDescriptions ui rem st) = openFiles st"
  by (simp add: refreshTreeAndDescriptions_def loadDescriptions_def split: option.splits)

lemma openFiles_switchToTab [simp]: "openFiles (switchToTab ui t st) = openFiles st"
  by (simp add: switchToTab_def Let_def split: option.splits)

lemma openFiles_renameReload [simp]:
  "openFiles (renameReload ui rem parentPath st) = openFiles st"
proof -
  let ?reloaded = "case lookupHeader ui (dom st) parentPath of
                     SyntaxError \<Rightarrow> Thrown st
                   | Found h \<Rightarrow>
                       restoreExpandedChildren ui parentPath
                         (loadFolderChildren ui rem parentPath (h_level h) st)
                   | Absent \<Rightarrow> Done (refreshTreeAndDescriptions ui rem st)"
  have 1: "openFiles (stateOf ?reloaded) = openFiles st"
    by (cases "lookupHeader ui (dom st) parentPath") simp_all
  have 2: "openFiles (case x of
                        Thrown s \<Rightarrow> s
                      | Done st9 \<Rightarrow>
                          (case activeTab st9 of
                             None \<Rightarrow> st9
                           | Some t \<Rightarrow> if t = [] then st9 else switchToTab ui t st9))
             = openFiles (stateOf x)" for x :: "'a fileManager outcome"
    by (cases x) (simp_all split: option.splits)
  show ?thesis unfolding renameReload_def Let_def 2 by (rule 1)
qed

text \<open>
  After a successful rename request the open files of the client are the result of the
  rewrite loop: nothing that follows it in \<open>confirmRename\<close> writes them.
\<close>

lemma confirmRename_openFiles:
  assumes "newName \<noteq> []" "renameData st = Some rd" "putRename rem (s_path rd) newName = Some res"
  shows "openFiles (confirmRename ui rem newName st) =
           renameOpenFiles (normalizePath (s_path rd))
             (renameNewPath res (normalizePath (s_path rd)) newName) newName (openFiles st)"
proof -
  have "openFiles (renameRewrite ui oldPath newPath newName st) =
          renameOpenFiles oldPath newPath newName (openFiles st)" for oldPath newPath
    by (simp add: renameRewrite_def Let_def)
  then show ?thesis using assms by (simp add: confirmRename_def Let_def)
qed

lemma renameFolderCache_fold:
  "renameFolderCache oldPath newPath cache =
     fold (\<lambda>kv m. mapSet m (fst (renameCacheEntry oldPath newPath kv))
                             (snd (renameCacheEntry oldPath newPath kv))) cache []"
  unfolding renameFolderCache_def
  by (rule arg_cong[where f="\<lambda>f. fold f cache []"])
     (auto simp: fun_eq_iff renameCacheEntry_def)

text \<open>
  Where the new path has no dollar sign and no two keys are rewritten to the same key,
  the loop over the folder cache rewrites every key as the specification says; the
  children are rewritten under the descendant keys only.
\<close>

lemma renameFolderCache_rewrite:
  assumes nd: "CHR ''$'' \<notin> set newPath"
      and dist: "distinct (map (rewrite_spec oldPath newPath) (mapKeys cache))"
  shows "renameFolderCache oldPath newPath cache = map (renameCacheEntry oldPath newPath) cache \<and>
         mapKeys (renameFolderCache oldPath newPath cache) =
           map (rewrite_spec oldPath newPath) (mapKeys cache)"
proof -
  let ?h = "renameCacheEntry oldPath newPath"
  have key: "fst (?h kv) = rewrite_spec oldPath newPath (fst kv)" for kv
    by (simp add: renameCacheEntry_def rewrite_spec_def jsReplace_plain[OF _ nd])
  have "map (\<lambda>kv. fst (?h kv)) cache = map (rewrite_spec oldPath newPath) (mapKeys cache)"
    by (simp add: key mapKeys_def)
  with dist have "distinct (map fst [] @ map (\<lambda>kv. fst (?h kv)) cache)" by simp
  then have "renameFolderCache oldPath newPath cache = [] @ map ?h cache"
    unfolding renameFolderCache_fold by (rule fold_mapSet_fresh)
  then show ?thesis by (simp add: mapKeys_def key)
qed

section \<open>The folder cache across a rename\<close>














end
